theory Spec2Isabelle
  imports Main
begin

section \<open>Data model of client.go\<close>

text \<open>
  A Go call either returns a value or panics; a panic unwinds the caller. Every function
  of the model returns an \<open>outcome\<close> together with the state it leaves behind.
\<close>

datatype 'a outcome = Ret 'a | Panic string

text \<open>
  The struct \<open>Configuration\<close> (client.go, lines 8-16). Go's \<open>int\<close> is modelled by
  \<open>int\<close>: the only arithmetic on these fields is the increment of \<open>poolUsage\<close> in
  \<open>Close\<close>, which stays at or below a positive \<open>PoolSize\<close>.
\<close>

record Configuration =
  Address :: string
  Path :: string
  Database :: int
  Auth :: string
  PoolSize :: int
  Timeout :: int
  NoLoadingRetry :: bool

text \<open>
  The struct \<open>Client\<close> (lines 21-25). Pointers are addresses: \<open>configuration\<close> is the
  address of a \<open>Configuration\<close> cell of the heap below, \<open>pool\<close> the handle of the
  connection pool. The field \<open>lock\<close> is never used in client.go and is left out.
\<close>

record Client =
  configuration :: nat
  pool :: nat

text \<open>
  Modelled from the spec: the struct \<open>Reply\<close> is declared outside client.go, which only
  shows its field \<open>err\<close>. The spec says a Reply carries either a result value or an
  error. A nil \<open>*Error\<close> is \<open>None\<close>; \<open>Reply{}\<close> is the zero value.
\<close>

record Reply =
  err :: "string option"
  val :: "string option"

definition zeroReply :: Reply where
  "zeroReply = \<lparr>err = None, val = None\<rparr>"

text \<open>
  The calls that leave client.go. Each is recorded in the order it is made, so that
  a property such as "released exactly once" is a property of the recorded calls.
  Connections, futures and subscriptions are pointers: an address, or \<open>None\<close> for nil.
\<close>

datatype event =
    NewConnectionPool Configuration
  | Pull nat "(nat option \<times> string option) outcome"
  | Push nat "nat option"
  | ConnClose "nat option"
  | ConnCommand "nat option" string "string list"
  | Process bool "nat option"
  | NewSubscription
  | NewFuture
  | SetReply nat Reply

text \<open>
  The body of a goroutine started by one of the \<open>Async\<close> functions: the closure with
  the variables it captured.
\<close>

datatype 'f task =
    GoCommand Client nat string "string list"
  | GoMultiCommand Client nat 'f
  | GoTransaction Client nat 'f

text \<open>
  The functions client.go calls but does not define: the pool (\<open>newConnectionPool\<close>,
  \<open>pull\<close>, \<open>push\<close>), the connection (\<open>close\<close>, \<open>command\<close>), the batch
  (\<open>newMultiCommand(transaction, conn).process(f)\<close>), \<open>newSubscription\<close> and the
  future (\<open>newFuture\<close>, \<open>setReply\<close>). They are parameters of the model: each is any
  function on a state \<open>'w\<close> of its own (pool, sockets, server), and each may panic.
  \<open>'f\<close> is the type of the build callbacks, \<open>'h\<close> of the message handlers.
\<close>

record ('w, 'f, 'h) collab =
  newConnectionPool :: "Configuration \<Rightarrow> 'w \<Rightarrow> nat outcome \<times> 'w"
  pull :: "nat \<Rightarrow> 'w \<Rightarrow> (nat option \<times> string option) outcome \<times> 'w"
  push :: "nat \<Rightarrow> nat option \<Rightarrow> 'w \<Rightarrow> unit outcome \<times> 'w"
  close :: "nat option \<Rightarrow> 'w \<Rightarrow> unit outcome \<times> 'w"
  command :: "nat option \<Rightarrow> Reply \<Rightarrow> string \<Rightarrow> string list \<Rightarrow> 'w \<Rightarrow> Reply outcome \<times> 'w"
  process :: "bool \<Rightarrow> nat option \<Rightarrow> 'f \<Rightarrow> 'w \<Rightarrow> Reply outcome \<times> 'w"
  newSubscription :: "Client \<Rightarrow> 'h \<Rightarrow> 'w \<Rightarrow> (nat option \<times> string option) outcome \<times> 'w"
  newFuture :: "'w \<Rightarrow> nat outcome \<times> 'w"
  setReply :: "nat \<Rightarrow> Reply \<Rightarrow> 'w \<Rightarrow> unit outcome \<times> 'w"

text \<open>
  The state of a run: the collaborators' state, the heap of \<open>Configuration\<close> cells
  (an address is an index; a cell is allocated by appending), the calls made so far and
  the goroutines started so far.
\<close>

record ('w, 'f) state =
  world :: 'w
  heap :: "Configuration list"
  calls :: "event list"
  spawned :: "'f task list"

definition invoke ::
  "('a outcome \<Rightarrow> event) \<Rightarrow> ('w \<Rightarrow> 'a outcome \<times> 'w) \<Rightarrow> ('w, 'f) state \<Rightarrow> 'a outcome \<times> ('w, 'f) state" where
  "invoke ev f s =
     (case f (world s) of (out, w) \<Rightarrow> (out, s\<lparr>world := w, calls := calls s @ [ev out]\<rparr>))"

definition deref :: "nat \<Rightarrow> ('w, 'f) state \<Rightarrow> Configuration option" where
  "deref p s = (if p < length (heap s) then Some (heap s ! p) else None)"

section \<open>Configuration\<close>

text \<open>
  \<open>checkConfiguration\<close> (lines 162-180) takes a pointer and writes through it. The
  model takes the contents of the cell and returns its new contents; \<open>NewClient\<close>
  stores them in the cell.
\<close>

definition checkConfiguration :: "Configuration \<Rightarrow> Configuration outcome" where
  "checkConfiguration c =
     (if Address c \<noteq> [] \<and> Path c \<noteq> []
      then Panic ''redis: configuration has both tcp/ip address and unix path''
      else
        let c1 = (if Address c = [] \<and> Path c = [] then c\<lparr>Address := ''127.0.0.1:6379''\<rparr> else c);
            c2 = (if Database c1 < 0 then c1\<lparr>Database := 0\<rparr> else c1);
            c3 = (if PoolSize c2 \<le> 0 then c2\<lparr>PoolSize := 10\<rparr> else c2)
        in Ret c3)"

text \<open>
  \<open>NewClient\<close> (lines 28-39). The parameter \<open>conf\<close> is a copy of the caller's value;
  its address is taken, so it lives in a fresh heap cell \<open>p\<close>.
\<close>

definition NewClient ::
  "('w, 'f, 'h) collab \<Rightarrow> Configuration \<Rightarrow> ('w, 'f) state \<Rightarrow> Client outcome \<times> ('w, 'f) state" where
  "NewClient E conf s =
     (let p = length (heap s);
          s1 = s\<lparr>heap := heap s @ [conf]\<rparr>
      in (case checkConfiguration conf of
            Panic m \<Rightarrow> (Panic m, s1)
          | Ret conf' \<Rightarrow>
              (let s2 = s1\<lparr>heap := (heap s1)[p := conf']\<rparr>
               in (case invoke (\<lambda>_. NewConnectionPool conf') (newConnectionPool E conf') s2 of
                     (Panic m, s3) \<Rightarrow> (Panic m, s3)
                   | (Ret cp, s3) \<Rightarrow> (Ret \<lparr>configuration = p, pool = cp\<rparr>, s3)))))"

section \<open>Calls into the collaborators\<close>

definition pool_pull ::
  "('w, 'f, 'h) collab \<Rightarrow> nat \<Rightarrow> ('w, 'f) state \<Rightarrow> (nat option \<times> string option) outcome \<times> ('w, 'f) state" where
  "pool_pull E p = invoke (Pull p) (pull E p)"

definition pool_push ::
  "('w, 'f, 'h) collab \<Rightarrow> nat \<Rightarrow> nat option \<Rightarrow> ('w, 'f) state \<Rightarrow> unit outcome \<times> ('w, 'f) state" where
  "pool_push E p conn = invoke (\<lambda>_. Push p conn) (push E p conn)"

definition conn_close ::
  "('w, 'f, 'h) collab \<Rightarrow> nat option \<Rightarrow> ('w, 'f) state \<Rightarrow> unit outcome \<times> ('w, 'f) state" where
  "conn_close E conn = invoke (\<lambda>_. ConnClose conn) (close E conn)"

definition conn_command ::
  "('w, 'f, 'h) collab \<Rightarrow> nat option \<Rightarrow> Reply \<Rightarrow> string \<Rightarrow> string list \<Rightarrow> ('w, 'f) state
     \<Rightarrow> Reply outcome \<times> ('w, 'f) state" where
  "conn_command E conn r cmd args = invoke (\<lambda>_. ConnCommand conn cmd args) (command E conn r cmd args)"

definition mc_process ::
  "('w, 'f, 'h) collab \<Rightarrow> bool \<Rightarrow> nat option \<Rightarrow> 'f \<Rightarrow> ('w, 'f) state \<Rightarrow> Reply outcome \<times> ('w, 'f) state" where
  "mc_process E transaction conn f = invoke (\<lambda>_. Process transaction conn) (process E transaction conn f)"

text \<open>
  \<open>defer\<close>: the deferred call runs when the body has returned and also when it has
  panicked; the function's outcome is the body's, unless the deferred call panics itself.
\<close>

definition deferred ::
  "(('w, 'f) state \<Rightarrow> unit outcome \<times> ('w, 'f) state) \<Rightarrow> 'a outcome \<times> ('w, 'f) state
     \<Rightarrow> 'a outcome \<times> ('w, 'f) state" where
  "deferred d r =
     (case r of (out, s) \<Rightarrow>
        (case d s of (Panic m, s') \<Rightarrow> (Panic m, s') | (Ret _, s') \<Rightarrow> (out, s')))"

section \<open>The client\<close>

text \<open>\<open>Command\<close> (lines 63-81).\<close>

definition Command ::
  "('w, 'f, 'h) collab \<Rightarrow> Client \<Rightarrow> string \<Rightarrow> string list \<Rightarrow> ('w, 'f) state
     \<Rightarrow> Reply outcome \<times> ('w, 'f) state" where
  "Command E c cmd args s =
     (let r = zeroReply
      in (case pool_pull E (pool c) s of
            (Panic m, s1) \<Rightarrow> (Panic m, s1)
          | (Ret (conn, e), s1) \<Rightarrow>
              if e \<noteq> None then (Ret (r\<lparr>err := e\<rparr>), s1)
              else deferred (pool_push E (pool c) conn) (conn_command E conn r cmd args s1)))"

text \<open>\<open>multiCommand\<close>, \<open>MultiCommand\<close> and \<open>Transaction\<close> (lines 94-119).\<close>

definition multiCommand ::
  "('w, 'f, 'h) collab \<Rightarrow> Client \<Rightarrow> bool \<Rightarrow> 'f \<Rightarrow> ('w, 'f) state \<Rightarrow> Reply outcome \<times> ('w, 'f) state" where
  "multiCommand E c transaction f s =
     (case pool_pull E (pool c) s of
        (Panic m, s1) \<Rightarrow> (Panic m, s1)
      | (Ret (conn, e), s1) \<Rightarrow>
          if e \<noteq> None then (Ret \<lparr>err = e, val = None\<rparr>, s1)
          else deferred (pool_push E (pool c) conn) (mc_process E transaction conn f s1))"

definition MultiCommand ::
  "('w, 'f, 'h) collab \<Rightarrow> Client \<Rightarrow> 'f \<Rightarrow> ('w, 'f) state \<Rightarrow> Reply outcome \<times> ('w, 'f) state" where
  "MultiCommand E c f = multiCommand E c False f"

definition Transaction ::
  "('w, 'f, 'h) collab \<Rightarrow> Client \<Rightarrow> 'f \<Rightarrow> ('w, 'f) state \<Rightarrow> Reply outcome \<times> ('w, 'f) state" where
  "Transaction E c f = multiCommand E c True f"

text \<open>
  \<open>Close\<close> (lines 42-60). The loop has no bound of its own: with a pool that never
  fails and a \<open>PoolSize\<close> the counter never meets it does not return, which is the
  value \<open>None\<close>. \<open>c.configuration.PoolSize\<close> is read through the pointer at every
  round. Both \<open>break\<close> and \<open>return\<close> end the function, since nothing follows the
  loop; the assignment \<open>conn = nil\<close> after \<open>conn.close()\<close> is to a local that is not
  read again. The counter is an unbounded \<open>int\<close>: Go's would wrap around after
  \<open>2^63\<close> rounds, which a positive \<open>PoolSize\<close> never lets it reach, since the loop
  ends when the counter meets it.
\<close>

partial_function (option) Close_loop ::
  "('w, 'f, 'h) collab \<Rightarrow> Client \<Rightarrow> int \<Rightarrow> ('w, 'f) state \<Rightarrow> (unit outcome \<times> ('w, 'f) state) option" where
  "Close_loop E c poolUsage s =
     (case pool_pull E (pool c) s of
        (Panic m, s1) \<Rightarrow> Some (Panic m, s1)
      | (Ret (conn, e), s1) \<Rightarrow>
          if e \<noteq> None then Some (Ret (), s1)
          else
            (case (if conn \<noteq> None then conn_close E conn s1 else (Ret (), s1)) of
               (Panic m, s2) \<Rightarrow> Some (Panic m, s2)
             | (Ret _, s2) \<Rightarrow>
                 (case deref (configuration c) s2 of
                    None \<Rightarrow> Some (Panic ''runtime error: invalid memory address or nil pointer dereference'', s2)
                  | Some cf \<Rightarrow>
                      if poolUsage + 1 = PoolSize cf then Some (Ret (), s2)
                      else Close_loop E c (poolUsage + 1) s2)))"

declare Close_loop.simps [code]

definition Close ::
  "('w, 'f, 'h) collab \<Rightarrow> Client \<Rightarrow> ('w, 'f) state \<Rightarrow> (unit outcome \<times> ('w, 'f) state) option" where
  "Close E c s = Close_loop E c 0 s"

text \<open>\<open>Subscription\<close> (lines 147-158); a nil handler is \<open>None\<close>.\<close>

definition Subscription ::
  "('w, 'f, 'h) collab \<Rightarrow> Client \<Rightarrow> 'h option \<Rightarrow> ('w, 'f) state
     \<Rightarrow> (nat option \<times> string option) outcome \<times> ('w, 'f) state" where
  "Subscription E c msgHdlr s =
     (case msgHdlr of
        None \<Rightarrow> (Panic ''redis: message handler must not be nil'', s)
      | Some h \<Rightarrow>
          (case invoke (\<lambda>_. NewSubscription) (newSubscription E c h) s of
             (Panic m, s1) \<Rightarrow> (Panic m, s1)
           | (Ret (sub, e), s1) \<Rightarrow>
               if e \<noteq> None then (Ret (None, e), s1) else (Ret (sub, None), s1)))"

text \<open>
  The \<open>Async\<close> functions (lines 84-92 and 122-141): \<open>go\<close> starts a goroutine, which
  runs later, at a state the scheduler picks; \<open>run_task\<close> is the goroutine's body.
\<close>

definition go :: "'f task \<Rightarrow> ('w, 'f) state \<Rightarrow> ('w, 'f) state" where
  "go t s = s\<lparr>spawned := spawned s @ [t]\<rparr>"

definition fut_newFuture ::
  "('w, 'f, 'h) collab \<Rightarrow> ('w, 'f) state \<Rightarrow> nat outcome \<times> ('w, 'f) state" where
  "fut_newFuture E = invoke (\<lambda>_. NewFuture) (newFuture E)"

definition fut_setReply ::
  "('w, 'f, 'h) collab \<Rightarrow> nat \<Rightarrow> Reply outcome \<times> ('w, 'f) state \<Rightarrow> unit outcome \<times> ('w, 'f) state" where
  "fut_setReply E fut r =
     (case r of
        (Panic m, s1) \<Rightarrow> (Panic m, s1)
      | (Ret rep, s1) \<Rightarrow> invoke (\<lambda>_. SetReply fut rep) (setReply E fut rep) s1)"

definition AsyncCommand ::
  "('w, 'f, 'h) collab \<Rightarrow> Client \<Rightarrow> string \<Rightarrow> string list \<Rightarrow> ('w, 'f) state
     \<Rightarrow> nat outcome \<times> ('w, 'f) state" where
  "AsyncCommand E c cmd args s =
     (case fut_newFuture E s of
        (Panic m, s1) \<Rightarrow> (Panic m, s1)
      | (Ret fut, s1) \<Rightarrow> (Ret fut, go (GoCommand c fut cmd args) s1))"

definition AsyncMultiCommand ::
  "('w, 'f, 'h) collab \<Rightarrow> Client \<Rightarrow> 'f \<Rightarrow> ('w, 'f) state \<Rightarrow> nat outcome \<times> ('w, 'f) state" where
  "AsyncMultiCommand E c f s =
     (case fut_newFuture E s of
        (Panic m, s1) \<Rightarrow> (Panic m, s1)
      | (Ret fut, s1) \<Rightarrow> (Ret fut, go (GoMultiCommand c fut f) s1))"

definition AsyncTransaction ::
  "('w, 'f, 'h) collab \<Rightarrow> Client \<Rightarrow> 'f \<Rightarrow> ('w, 'f) state \<Rightarrow> nat outcome \<times> ('w, 'f) state" where
  "AsyncTransaction E c f s =
     (case fut_newFuture E s of
        (Panic m, s1) \<Rightarrow> (Panic m, s1)
      | (Ret fut, s1) \<Rightarrow> (Ret fut, go (GoTransaction c fut f) s1))"

fun run_task ::
  "('w, 'f, 'h) collab \<Rightarrow> 'f task \<Rightarrow> ('w, 'f) state \<Rightarrow> unit outcome \<times> ('w, 'f) state" where
  "run_task E (GoCommand c fut cmd args) s = fut_setReply E fut (Command E c cmd args s)"
| "run_task E (GoMultiCommand c fut f) s = fut_setReply E fut (MultiCommand E c f s)"
| "run_task E (GoTransaction c fut f) s = fut_setReply E fut (Transaction E c f s)"

section \<open>A pool and a fake codec\<close>

text \<open>
  Modelled from the spec: the connection pool (\<open>pull\<close>, \<open>push\<close>) is not in client.go.
  Section 4.2 of the spec: acquire returns an idle connection or fails when none is
  available; release returns a connection to the idle set; releasing nil is a no-op.
  The pool keeps its idle connections in \<open>idle\<close>; \<open>ext\<close> is the rest of the
  collaborators' state. Failing at once is the policy chosen here.
\<close>

record 'x pworld =
  idle :: "nat list"
  ext :: 'x

definition spec_pull :: "nat \<Rightarrow> 'x pworld \<Rightarrow> (nat option \<times> string option) outcome \<times> 'x pworld" where
  "spec_pull p w =
     (case idle w of
        [] \<Rightarrow> (Ret (None, Some ''redis: no connection available''), w)
      | cn # rest \<Rightarrow> (Ret (Some cn, None), w\<lparr>idle := rest\<rparr>))"

definition spec_push :: "nat \<Rightarrow> nat option \<Rightarrow> 'x pworld \<Rightarrow> unit outcome \<times> 'x pworld" where
  "spec_push p conn w =
     (case conn of None \<Rightarrow> (Ret (), w) | Some cn \<Rightarrow> (Ret (), w\<lparr>idle := cn # idle w\<rparr>))"

text \<open>
  A deterministic fake for the examples: the pool above; a codec that answers every
  command with the value \<open>v\<close>, except \<open>FAIL\<close>, which it answers with an error; \<open>ext\<close>
  counts the futures handed out.
\<close>

definition fake :: "(nat pworld, unit, unit) collab" where
  "fake =
     \<lparr>newConnectionPool = (\<lambda>cf w. (Ret 0, w)),
      pull = spec_pull,
      push = spec_push,
      close = (\<lambda>conn w. (Ret (), w)),
      command = (\<lambda>conn r cmd args w.
         (Ret (if cmd = ''FAIL'' then r\<lparr>err := Some ''ERR''\<rparr> else r\<lparr>val := Some ''v''\<rparr>), w)),
      process = (\<lambda>transaction conn f w. (Ret \<lparr>err = None, val = Some ''OK''\<rparr>, w)),
      newSubscription = (\<lambda>c h w. (Ret (Some 0, None), w)),
      newFuture = (\<lambda>w. (Ret (ext w), w\<lparr>ext := ext w + 1\<rparr>)),
      setReply = (\<lambda>fut r w. (Ret (), w))\<rparr>"

definition start :: "nat list \<Rightarrow> (nat pworld, unit) state" where
  "start cs = \<lparr>world = \<lparr>idle = cs, ext = 0\<rparr>, heap = [], calls = [], spawned = []\<rparr>"

text \<open>
  The same fake with a store of futures: \<open>ext\<close> is the number of futures handed out
  and the list of the replies written, each with its future, in the order of the writes.
\<close>

definition fakeFut :: "((nat \<times> (nat \<times> Reply) list) pworld, unit, unit) collab" where
  "fakeFut =
     \<lparr>newConnectionPool = (\<lambda>cf w. (Ret 0, w)),
      pull = spec_pull,
      push = spec_push,
      close = (\<lambda>conn w. (Ret (), w)),
      command = (\<lambda>conn r cmd args w.
         (Ret (if cmd = ''FAIL'' then r\<lparr>err := Some ''ERR''\<rparr> else r\<lparr>val := Some ''v''\<rparr>), w)),
      process = (\<lambda>transaction conn f w. (Ret \<lparr>err = None, val = Some ''OK''\<rparr>, w)),
      newSubscription = (\<lambda>c h w. (Ret (Some 0, None), w)),
      newFuture = (\<lambda>w. (Ret (fst (ext w)), w\<lparr>ext := (fst (ext w) + 1, snd (ext w))\<rparr>)),
      setReply = (\<lambda>fut r w. (Ret (), w\<lparr>ext := (fst (ext w), snd (ext w) @ [(fut, r)])\<rparr>))\<rparr>"

definition startFut :: "nat list \<Rightarrow> ((nat \<times> (nat \<times> Reply) list) pworld, unit) state" where
  "startFut cs = \<lparr>world = \<lparr>idle = cs, ext = (0, [])\<rparr>, heap = [], calls = [], spawned = []\<rparr>"

definition client0 :: Client where
  "client0 = \<lparr>configuration = 0, pool = 0\<rparr>"

definition zeroConfiguration :: Configuration where
  "zeroConfiguration =
     \<lparr>Address = [], Path = [], Database = 0, Auth = [], PoolSize = 0, Timeout = 0,
      NoLoadingRetry = False\<rparr>"

text \<open>A pool for the examples whose every pull succeeds with a nil connection.\<close>

definition nilPool :: "(nat pworld, unit, unit) collab" where
  "nilPool = fake\<lparr>pull := (\<lambda>p w. (Ret (None, None), w))\<rparr>"

text \<open>A caller that makes one \<open>Command\<close> call after the other; a panic ends the run.\<close>

fun Command_seq ::
  "('w, 'f, 'h) collab \<Rightarrow> Client \<Rightarrow> (string \<times> string list) list \<Rightarrow> ('w, 'f) state
     \<Rightarrow> Reply list outcome \<times> ('w, 'f) state" where
  "Command_seq E c [] s = (Ret [], s)"
| "Command_seq E c ((cmd, args) # rest) s =
     (case Command E c cmd args s of
        (Panic m, s1) \<Rightarrow> (Panic m, s1)
      | (Ret r, s1) \<Rightarrow>
          (case Command_seq E c rest s1 of
             (Panic m, s2) \<Rightarrow> (Panic m, s2)
           | (Ret rs, s2) \<Rightarrow> (Ret (r # rs), s2)))"

text \<open>Recognisers for the recorded calls.\<close>

fun isSetReply :: "nat \<Rightarrow> event \<Rightarrow> bool" where
  "isSetReply fut (SetReply g r) = (g = fut)"
| "isSetReply fut _ = False"

fun isPull :: "event \<Rightarrow> bool" where
  "isPull (Pull p out) = True"
| "isPull _ = False"

fun isAcquired :: "event \<Rightarrow> bool" where
  "isAcquired (Pull p (Ret (conn, None))) = True"
| "isAcquired _ = False"

fun isFailedPull :: "event \<Rightarrow> bool" where
  "isFailedPull (Pull p (Ret (conn, Some e))) = True"
| "isFailedPull _ = False"

fun isAcquiredConn :: "event \<Rightarrow> bool" where
  "isAcquiredConn (Pull p (Ret (Some cn, None))) = True"
| "isAcquiredConn _ = False"

fun isClose :: "event \<Rightarrow> bool" where
  "isClose (ConnClose conn) = True"
| "isClose _ = False"

text \<open>
  What one run of the loop of \<open>Close\<close> that may still make \<open>k\<close> acquisitions
  records: used to state the induction over the loop.
\<close>

definition close_run :: "nat \<Rightarrow> unit outcome \<Rightarrow> event list \<Rightarrow> bool" where
  "close_run k out tr =
     (length (filter isPull tr) \<le> k \<and>
      length (filter isAcquired tr) \<le> k \<and>
      length (filter isClose tr) = length (filter isAcquiredConn tr) \<and>
      length (filter isAcquiredConn tr) \<le> length (filter isAcquired tr) \<and>
      ConnClose None \<notin> set tr \<and>
      (out = Ret () \<longrightarrow>
         (length (filter isAcquired tr) = k \<and> filter isFailedPull tr = []) \<or>
         (tr \<noteq> [] \<and> isFailedPull (last tr) \<and> length (filter isFailedPull tr) = 1)))"

section \<open>Basic facts\<close>

lemma invoke_eq:
  "f (world s) = (out, w) \<Longrightarrow> invoke ev f s = (out, s\<lparr>world := w, calls := calls s @ [ev out]\<rparr>)"
  by (simp add: invoke_def)

lemma deferred_calls:
  assumes "d = invoke ev f" and "calls s = tr"
  shows "\<exists>out' s'. deferred d (out, s) = (out', s') \<and> calls s' = tr @ [ev (fst (f (world s)))]"
proof -
  obtain o3 w3 where p: "f (world s) = (o3, w3)" by (cases "f (world s)")
  show ?thesis using assms p by (cases o3) (simp_all add: deferred_def invoke_eq)
qed

lemma checkConfiguration_both:
  "Address c \<noteq> [] \<and> Path c \<noteq> [] \<Longrightarrow>
     checkConfiguration c = Panic ''redis: configuration has both tcp/ip address and unix path''"
  by (simp add: checkConfiguration_def)

lemma checkConfiguration_fields:
  assumes "\<not> (Address c \<noteq> [] \<and> Path c \<noteq> [])"
  shows "\<exists>c'. checkConfiguration c = Ret c'
     \<and> Address c' = (if Address c = [] \<and> Path c = [] then ''127.0.0.1:6379'' else Address c)
     \<and> Database c' = (if Database c < 0 then 0 else Database c)
     \<and> PoolSize c' = (if PoolSize c \<le> 0 then 10 else PoolSize c)
     \<and> Path c' = Path c \<and> Auth c' = Auth c \<and> Timeout c' = Timeout c
     \<and> NoLoadingRetry c' = NoLoadingRetry c"
  using assms by (simp add: checkConfiguration_def Let_def)

lemma NewClient_Panic:
  "checkConfiguration c = Panic m \<Longrightarrow> NewClient E c s = (Panic m, s\<lparr>heap := heap s @ [c]\<rparr>)"
  by (simp add: NewClient_def Let_def)

lemma NewClient_Ret:
  assumes "checkConfiguration c = Ret c'" and "newConnectionPool E c' (world s) = (out, w)"
  shows "NewClient E c s =
     (case out of Panic m \<Rightarrow> Panic m | Ret cp \<Rightarrow> Ret \<lparr>configuration = length (heap s), pool = cp\<rparr>,
      s\<lparr>heap := heap s @ [c'], world := w, calls := calls s @ [NewConnectionPool c']\<rparr>)"
  using assms by (cases out) (simp_all add: NewClient_def Let_def invoke_eq)

lemma NewClient_stores:
  assumes "checkConfiguration c = Ret c'" and "NewClient E c s = (Ret cl, s')"
  shows "configuration cl = length (heap s) \<and> heap s' = heap s @ [c'] \<and>
         deref (configuration cl) s' = Some c'"
proof -
  obtain out w where n: "newConnectionPool E c' (world s) = (out, w)"
    by (cases "newConnectionPool E c' (world s)")
  show ?thesis using assms(2) unfolding NewClient_Ret [OF assms(1) n]
    by (cases out) (auto simp: deref_def)
qed

lemma multiCommand_error:
  assumes "pull E (pool c) (world s) = (Ret (conn, Some e), w1)"
  shows "multiCommand E c t f s =
        (Ret \<lparr>err = Some e, val = None\<rparr>,
         s\<lparr>world := w1, calls := calls s @ [Pull (pool c) (Ret (conn, Some e))]\<rparr>)"
  using assms by (simp add: multiCommand_def pool_pull_def invoke_eq)

lemma multiCommand_leased:
  assumes "pull E (pool c) (world s) = (Ret (conn, None), w1)"
  shows "\<exists>out s'. multiCommand E c t f s = (out, s') \<and>
         calls s' = calls s @ [Pull (pool c) (Ret (conn, None)), Process t conn, Push (pool c) conn]"
proof -
  let ?s1 = "s\<lparr>world := w1, calls := calls s @ [Pull (pool c) (Ret (conn, None))]\<rparr>"
  obtain o2 w2 where k: "process E t conn f w1 = (o2, w2)"
    by (cases "process E t conn f w1")
  let ?s2 = "?s1\<lparr>world := w2, calls := calls ?s1 @ [Process t conn]\<rparr>"
  have 1: "multiCommand E c t f s = deferred (pool_push E (pool c) conn) (o2, ?s2)"
    using assms k by (simp add: multiCommand_def pool_pull_def mc_process_def invoke_eq)
  have "\<exists>out' s'. deferred (pool_push E (pool c) conn) (o2, ?s2) = (out', s') \<and>
          calls s' = (calls s @ [Pull (pool c) (Ret (conn, None)), Process t conn]) @ [Push (pool c) conn]"
    by (rule deferred_calls) (simp_all add: pool_push_def)
  with 1 show ?thesis by simp
qed

lemma Command_pull_error:
  assumes "pull E (pool c) (world s) = (Ret (conn, Some e), w1)"
  shows "Command E c cmd args s =
           (Ret \<lparr>err = Some e, val = None\<rparr>,
            s\<lparr>world := w1, calls := calls s @ [Pull (pool c) (Ret (conn, Some e))]\<rparr>)"
  using assms by (simp add: Command_def pool_pull_def invoke_eq zeroReply_def)

lemma Command_leased:
  assumes "pull E (pool c) (world s) = (Ret (conn, None), w1)"
  shows "\<exists>out s'. Command E c cmd args s = (out, s') \<and>
           calls s' = calls s @ [Pull (pool c) (Ret (conn, None)), ConnCommand conn cmd args, Push (pool c) conn]"
proof -
  let ?s1 = "s\<lparr>world := w1, calls := calls s @ [Pull (pool c) (Ret (conn, None))]\<rparr>"
  obtain o2 w2 where k: "command E conn zeroReply cmd args w1 = (o2, w2)"
    by (cases "command E conn zeroReply cmd args w1")
  let ?s2 = "?s1\<lparr>world := w2, calls := calls ?s1 @ [ConnCommand conn cmd args]\<rparr>"
  have 1: "Command E c cmd args s = deferred (pool_push E (pool c) conn) (o2, ?s2)"
    using assms k by (simp add: Command_def pool_pull_def conn_command_def invoke_eq)
  have "\<exists>out' s'. deferred (pool_push E (pool c) conn) (o2, ?s2) = (out', s') \<and>
          calls s' = (calls s @ [Pull (pool c) (Ret (conn, None)), ConnCommand conn cmd args]) @ [Push (pool c) conn]"
    by (rule deferred_calls) (simp_all add: pool_push_def)
  with 1 show ?thesis by simp
qed

lemma Command_idle:
  fixes E :: "('x pworld, 'f, 'h) collab"
  assumes pl: "pull E = spec_pull" and ps: "push E = spec_push"
    and cm: "\<forall>conn r cmd args w. idle (snd (command E conn r cmd args w)) = idle w"
  shows "idle (world (snd (Command E c cmd args s))) = idle (world s)"
proof (cases "idle (world s)")
  case Nil
  then have "pull E (pool c) (world s) = (Ret (None, Some ''redis: no connection available''), world s)"
    by (simp add: pl spec_pull_def)
  from Command_pull_error [OF this] show ?thesis by simp
next
  case (Cons cn rest)
  let ?w1 = "(world s)\<lparr>idle := rest\<rparr>"
  have p: "pull E (pool c) (world s) = (Ret (Some cn, None), ?w1)"
    using Cons by (simp add: pl spec_pull_def)
  obtain o2 w2 where k: "command E (Some cn) zeroReply cmd args ?w1 = (o2, w2)"
    by (cases "command E (Some cn) zeroReply cmd args ?w1")
  have i2: "idle w2 = rest" using cm [rule_format, of "Some cn" zeroReply cmd args ?w1] k by simp
  show ?thesis using p k i2 Cons
    by (simp add: Command_def pool_pull_def conn_command_def pool_push_def invoke_eq deferred_def
        ps spec_push_def)
qed

lemma Command_seq_idle:
  fixes E :: "('x pworld, 'f, 'h) collab"
  assumes pl: "pull E = spec_pull" and ps: "push E = spec_push"
    and cm: "\<forall>conn r cmd args w. idle (snd (command E conn r cmd args w)) = idle w"
  shows "idle (world (snd (Command_seq E c cs s))) = idle (world s)"
proof (induction cs arbitrary: s)
  case Nil
  show ?case by simp
next
  case (Cons x cs)
  obtain cmd args where x: "x = (cmd, args)" by (cases x)
  obtain out s1 where k: "Command E c cmd args s = (out, s1)" by (cases "Command E c cmd args s")
  have i1: "idle (world s1) = idle (world s)"
    using Command_idle [OF pl ps cm, of c cmd args s] k by simp
  show ?case
  proof (cases out)
    case (Panic m)
    with x k i1 show ?thesis by simp
  next
    case (Ret r)
    obtain out2 s2 where k2: "Command_seq E c cs s1 = (out2, s2)" by (cases "Command_seq E c cs s1")
    have "idle (world s2) = idle (world s1)" using Cons.IH [of s1] k2 by simp
    with x k i1 Ret k2 show ?thesis by (cases out2) simp_all
  qed
qed

lemma Command_Panic:
  assumes "pull E (pool c) (world s) = (Panic m, w1)"
  shows "Command E c cmd args s = (Panic m, s\<lparr>world := w1, calls := calls s @ [Pull (pool c) (Panic m)]\<rparr>)"
  using assms by (simp add: Command_def pool_pull_def invoke_eq)

lemma multiCommand_Panic:
  assumes "pull E (pool c) (world s) = (Panic m, w1)"
  shows "multiCommand E c t f s = (Panic m, s\<lparr>world := w1, calls := calls s @ [Pull (pool c) (Panic m)]\<rparr>)"
  using assms by (simp add: multiCommand_def pool_pull_def invoke_eq)

lemma Command_no_setReply:
  "\<exists>tr. calls (snd (Command E c cmd args s)) = calls s @ tr \<and> filter (isSetReply fut) tr = []"
proof -
  obtain out w1 where p: "pull E (pool c) (world s) = (out, w1)"
    by (cases "pull E (pool c) (world s)")
  show ?thesis
  proof (cases out)
    case (Panic m)
    with p show ?thesis by (simp add: Command_Panic)
  next
    case (Ret r)
    obtain conn e where r: "r = (conn, e)" by (cases r)
    show ?thesis
    proof (cases e)
      case None
      from Command_leased [of E c s conn w1 cmd args] p Ret r None
      obtain out' s' where "Command E c cmd args s = (out', s')"
        "calls s' = calls s @ [Pull (pool c) (Ret (conn, None)), ConnCommand conn cmd args, Push (pool c) conn]"
        by blast
      then show ?thesis by simp
    next
      case (Some a)
      with p Ret r show ?thesis by (simp add: Command_pull_error)
    qed
  qed
qed

lemma multiCommand_no_setReply:
  "\<exists>tr. calls (snd (multiCommand E c t f s)) = calls s @ tr \<and> filter (isSetReply fut) tr = []"
proof -
  obtain out w1 where p: "pull E (pool c) (world s) = (out, w1)"
    by (cases "pull E (pool c) (world s)")
  show ?thesis
  proof (cases out)
    case (Panic m)
    with p show ?thesis by (simp add: multiCommand_Panic)
  next
    case (Ret r)
    obtain conn e where r: "r = (conn, e)" by (cases r)
    show ?thesis
    proof (cases e)
      case None
      from multiCommand_leased [of E c s conn w1 t f] p Ret r None
      obtain out' s' where "multiCommand E c t f s = (out', s')"
        "calls s' = calls s @ [Pull (pool c) (Ret (conn, None)), Process t conn, Push (pool c) conn]"
        by blast
      then show ?thesis by simp
    next
      case (Some a)
      with p Ret r show ?thesis by (simp add: multiCommand_error)
    qed
  qed
qed

lemma fut_setReply_once:
  assumes "sync = (Ret r, t1)" and "\<exists>tr. calls (snd sync) = calls t @ tr \<and> filter (isSetReply fut) tr = []"
  shows "calls (snd (fut_setReply E fut sync)) = calls t1 @ [SetReply fut r] \<and>
         length (filter (isSetReply fut) (drop (length (calls t)) (calls (snd (fut_setReply E fut sync))))) = 1"
proof -
  obtain o2 w2 where k: "setReply E fut r (world t1) = (o2, w2)"
    by (cases "setReply E fut r (world t1)")
  from assms obtain tr where tr: "calls t1 = calls t @ tr" "filter (isSetReply fut) tr = []" by auto
  have "calls (snd (fut_setReply E fut sync)) = calls t1 @ [SetReply fut r]"
    using assms(1) k by (simp add: fut_setReply_def invoke_eq)
  with tr show ?thesis by simp
qed

lemma Async_spawn:
  assumes "newFuture E (world s) = (Ret fut, w1)"
  shows "AsyncCommand E c cmd args s =
           (Ret fut, s\<lparr>world := w1, calls := calls s @ [NewFuture],
                       spawned := spawned s @ [GoCommand c fut cmd args]\<rparr>)"
    and "AsyncMultiCommand E c f s =
           (Ret fut, s\<lparr>world := w1, calls := calls s @ [NewFuture],
                       spawned := spawned s @ [GoMultiCommand c fut f]\<rparr>)"
    and "AsyncTransaction E c f s =
           (Ret fut, s\<lparr>world := w1, calls := calls s @ [NewFuture],
                       spawned := spawned s @ [GoTransaction c fut f]\<rparr>)"
  using assms
  by (simp_all add: AsyncCommand_def AsyncMultiCommand_def AsyncTransaction_def fut_newFuture_def
      invoke_eq go_def)

lemma deref_upd: "deref p (s\<lparr>world := w, calls := cs\<rparr>) = deref p s"
  by (simp add: deref_def)

lemma Close_loop_pull_Panic:
  assumes "pull E (pool c) (world s) = (Panic m, w1)"
  shows "Close_loop E c u s =
           Some (Panic m, s\<lparr>world := w1, calls := calls s @ [Pull (pool c) (Panic m)]\<rparr>)"
  using assms by (subst Close_loop.simps) (simp add: pool_pull_def invoke_eq)

lemma Close_loop_pull_error:
  assumes "pull E (pool c) (world s) = (Ret (conn, Some e), w1)"
  shows "Close_loop E c u s =
           Some (Ret (), s\<lparr>world := w1, calls := calls s @ [Pull (pool c) (Ret (conn, Some e))]\<rparr>)"
  using assms by (subst Close_loop.simps) (simp add: pool_pull_def invoke_eq)

lemma Close_loop_close_Panic:
  assumes "pull E (pool c) (world s) = (Ret (Some cn, None), w1)"
    and "close E (Some cn) w1 = (Panic m, w2)"
  shows "Close_loop E c u s =
           Some (Panic m, s\<lparr>world := w2,
             calls := calls s @ [Pull (pool c) (Ret (Some cn, None)), ConnClose (Some cn)]\<rparr>)"
  using assms by (subst Close_loop.simps) (simp add: pool_pull_def conn_close_def invoke_eq)

lemma Close_loop_nil:
  assumes "pull E (pool c) (world s) = (Ret (None, None), w1)"
    and "deref (configuration c) s = Some cf"
  shows "Close_loop E c u s =
           (if u + 1 = PoolSize cf
            then Some (Ret (), s\<lparr>world := w1, calls := calls s @ [Pull (pool c) (Ret (None, None))]\<rparr>)
            else Close_loop E c (u + 1)
                   (s\<lparr>world := w1, calls := calls s @ [Pull (pool c) (Ret (None, None))]\<rparr>))"
  using assms
  by (subst Close_loop.simps) (simp add: pool_pull_def invoke_eq deref_upd)

lemma Close_loop_closed:
  assumes "pull E (pool c) (world s) = (Ret (Some cn, None), w1)"
    and "close E (Some cn) w1 = (Ret x, w2)"
    and "deref (configuration c) s = Some cf"
  shows "Close_loop E c u s =
           (if u + 1 = PoolSize cf
            then Some (Ret (), s\<lparr>world := w2,
                  calls := calls s @ [Pull (pool c) (Ret (Some cn, None)), ConnClose (Some cn)]\<rparr>)
            else Close_loop E c (u + 1) (s\<lparr>world := w2,
                  calls := calls s @ [Pull (pool c) (Ret (Some cn, None)), ConnClose (Some cn)]\<rparr>))"
  using assms
  by (subst Close_loop.simps) (simp add: pool_pull_def conn_close_def invoke_eq deref_upd)

lemma close_run_pull_Panic: "close_run (Suc n) (Panic m) [Pull p (Panic m)]"
  by (simp add: close_run_def)

lemma close_run_pull_error: "close_run (Suc n) out [Pull p (Ret (conn, Some e))]"
  by (simp add: close_run_def)

lemma close_run_close_Panic:
  "close_run (Suc n) (Panic m) [Pull p (Ret (Some cn, None)), ConnClose (Some cn)]"
  by (simp add: close_run_def)

lemma close_run_last_nil: "close_run (Suc 0) out [Pull p (Ret (None, None))]"
  by (simp add: close_run_def)

lemma close_run_last_closed:
  "close_run (Suc 0) out [Pull p (Ret (Some cn, None)), ConnClose (Some cn)]"
  by (simp add: close_run_def)

lemma close_run_nil:
  assumes "close_run k out tr"
  shows "close_run (Suc k) out (Pull p (Ret (None, None)) # tr)"
  using assms unfolding close_run_def by (cases "tr = []") auto

lemma close_run_closed:
  assumes "close_run k out tr"
  shows "close_run (Suc k) out (Pull p (Ret (Some cn, None)) # ConnClose (Some cn) # tr)"
  using assms unfolding close_run_def by (cases "tr = []") auto

lemma Close_loop_run:
  assumes "deref (configuration c) s = Some cf" and "PoolSize cf - u = int (Suc n)"
  shows "\<exists>out s' tr. Close_loop E c u s = Some (out, s') \<and> calls s' = calls s @ tr \<and>
           heap s' = heap s \<and> close_run (Suc n) out tr"
  using assms
proof (induction n arbitrary: u s)
  case 0
  then have last: "u + 1 = PoolSize cf" by simp
  obtain out w1 where p: "pull E (pool c) (world s) = (out, w1)"
    by (cases "pull E (pool c) (world s)")
  show ?case
  proof (cases out)
    case (Panic m)
    show ?thesis
      unfolding Close_loop_pull_Panic [OF p [unfolded Panic]]
      using close_run_pull_Panic by simp
  next
    case (Ret r)
    obtain conn e where r: "r = (conn, e)" by (cases r)
    show ?thesis
    proof (cases e)
      case (Some a)
      show ?thesis
        unfolding Close_loop_pull_error [OF p [unfolded Ret r Some]]
        using close_run_pull_error by simp
    next
      case None
      show ?thesis
      proof (cases conn)
        case nil: None
        show ?thesis
          unfolding Close_loop_nil [OF p [unfolded Ret r None nil] "0.prems"(1)]
          using last close_run_last_nil by simp
      next
        case (Some cn)
        obtain o2 w2 where k: "close E (Some cn) w1 = (o2, w2)"
          by (cases "close E (Some cn) w1")
        show ?thesis
        proof (cases o2)
          case (Panic m)
          show ?thesis
            unfolding Close_loop_close_Panic [OF p [unfolded Ret r None Some] k [unfolded Panic]]
            using close_run_close_Panic by simp
        next
          case ok: (Ret x)
          show ?thesis
            unfolding Close_loop_closed [OF p [unfolded Ret r None Some] k [unfolded ok] "0.prems"(1)]
            using last close_run_last_closed by simp
        qed
      qed
    qed
  qed
next
  case (Suc n)
  then have more: "u + 1 \<noteq> PoolSize cf" and rest: "PoolSize cf - (u + 1) = int (Suc n)" by simp_all
  obtain out w1 where p: "pull E (pool c) (world s) = (out, w1)"
    by (cases "pull E (pool c) (world s)")
  show ?case
  proof (cases out)
    case (Panic m)
    show ?thesis
      unfolding Close_loop_pull_Panic [OF p [unfolded Panic]]
      using close_run_pull_Panic by simp
  next
    case (Ret r)
    obtain conn e where r: "r = (conn, e)" by (cases r)
    show ?thesis
    proof (cases e)
      case (Some a)
      show ?thesis
        unfolding Close_loop_pull_error [OF p [unfolded Ret r Some]]
        using close_run_pull_error by simp
    next
      case None
      show ?thesis
      proof (cases conn)
        case nil: None
        let ?s2 = "s\<lparr>world := w1, calls := calls s @ [Pull (pool c) (Ret (None, None))]\<rparr>"
        have d: "deref (configuration c) ?s2 = Some cf"
          using Suc.prems(1) by (simp add: deref_upd)
        from Suc.IH [OF d rest] obtain out' s' tr where
          run: "Close_loop E c (u + 1) ?s2 = Some (out', s')" and
          cs: "calls s' = calls ?s2 @ tr" and hp: "heap s' = heap ?s2" and
          cr: "close_run (Suc n) out' tr"
          by blast
        have 1: "Close_loop E c u s = Some (out', s')"
          unfolding Close_loop_nil [OF p [unfolded Ret r None nil] Suc.prems(1)]
          using more run by simp
        have 2: "calls s' = calls s @ (Pull (pool c) (Ret (None, None)) # tr)"
          using cs by simp
        have 3: "heap s' = heap s" using hp by simp
        from 1 2 3 close_run_nil [OF cr] show ?thesis by blast
      next
        case (Some cn)
        obtain o2 w2 where k: "close E (Some cn) w1 = (o2, w2)"
          by (cases "close E (Some cn) w1")
        show ?thesis
        proof (cases o2)
          case (Panic m)
          show ?thesis
            unfolding Close_loop_close_Panic [OF p [unfolded Ret r None Some] k [unfolded Panic]]
            using close_run_close_Panic by simp
        next
          case ok: (Ret x)
          let ?s2 = "s\<lparr>world := w2,
                  calls := calls s @ [Pull (pool c) (Ret (Some cn, None)), ConnClose (Some cn)]\<rparr>"
          have d: "deref (configuration c) ?s2 = Some cf"
            using Suc.prems(1) by (simp add: deref_upd)
          from Suc.IH [OF d rest] obtain out' s' tr where
            run: "Close_loop E c (u + 1) ?s2 = Some (out', s')" and
            cs: "calls s' = calls ?s2 @ tr" and hp: "heap s' = heap ?s2" and
            cr: "close_run (Suc n) out' tr"
            by blast
          have 1: "Close_loop E c u s = Some (out', s')"
            unfolding Close_loop_closed [OF p [unfolded Ret r None Some] k [unfolded ok] Suc.prems(1)]
            using more run by simp
          have 2: "calls s' = calls s @ (Pull (pool c) (Ret (Some cn, None)) # ConnClose (Some cn) # tr)"
            using cs by simp
          have 3: "heap s' = heap s" using hp by simp
          from 1 2 3 close_run_closed [OF cr] show ?thesis by blast
        qed
      qed
    qed
  qed
qed
lemma NewClient_PoolSize:
  assumes "NewClient E conf s0 = (Ret c, s1)"
  shows "\<exists>cf. checkConfiguration conf = Ret cf \<and> deref (configuration c) s1 = Some cf \<and>
           0 < PoolSize cf \<and> configuration c = length (heap s0)"
proof (cases "Address conf \<noteq> [] \<and> Path conf \<noteq> []")
  case True
  from NewClient_Panic [OF checkConfiguration_both [OF True], of E s0] assms show ?thesis by simp
next
  case False
  from checkConfiguration_fields [OF False] obtain cf where
    r: "checkConfiguration conf = Ret cf" and
    ps: "PoolSize cf = (if PoolSize conf \<le> 0 then 10 else PoolSize conf)"
    by blast
  from ps have "0 < PoolSize cf" by (simp split: if_splits)
  with r NewClient_stores [OF r assms] show ?thesis by blast
qed

lemma Close_run:
  assumes "deref (configuration c) s = Some cf" and "0 < PoolSize cf"
  shows "\<exists>out s' tr. Close E c s = Some (out, s') \<and> calls s' = calls s @ tr \<and>
           heap s' = heap s \<and> close_run (nat (PoolSize cf)) out tr"
proof -
  from assms(2) obtain n where n: "PoolSize cf - 0 = int (Suc n)"
    by (metis diff_zero nat_0_iff not_less0 old.nat.exhaust zless_nat_eq_int_zless int_nat_eq less_imp_le)
  then have "nat (PoolSize cf) = Suc n" by simp
  with Close_loop_run [OF assms(1) n, of E] show ?thesis by (simp add: Close_def)
qed


lemma Close_nilPool:
  "Close nilPool client0 ((start [])\<lparr>heap := [zeroConfiguration\<lparr>PoolSize := 2\<rparr>]\<rparr>) =
     Some (Ret (), (start [])\<lparr>heap := [zeroConfiguration\<lparr>PoolSize := 2\<rparr>],
                              calls := [Pull 0 (Ret (None, None)), Pull 0 (Ret (None, None))]\<rparr>)"
proof -
  let ?cf = "zeroConfiguration\<lparr>PoolSize := 2\<rparr>"
  let ?S = "(start [])\<lparr>heap := [?cf]\<rparr>"
  let ?S1 = "?S\<lparr>world := world ?S, calls := calls ?S @ [Pull (pool client0) (Ret (None, None))]\<rparr>"
  have p: "\<And>s. pull nilPool (pool client0) (world s) = (Ret (None, None), world s)"
    by (simp add: nilPool_def)
  have d: "deref (configuration client0) ?S = Some ?cf"
    by (simp add: deref_def client0_def start_def)
  have d1: "deref (configuration client0) ?S1 = Some ?cf"
    by (simp add: deref_def client0_def start_def)
  have "Close nilPool client0 ?S = Close_loop nilPool client0 1 ?S1"
    unfolding Close_def Close_loop_nil [OF p d] by simp
  also have "\<dots> = Some (Ret (), ?S1\<lparr>world := world ?S1,
       calls := calls ?S1 @ [Pull (pool client0) (Ret (None, None))]\<rparr>)"
    unfolding Close_loop_nil [OF p d1] by simp
  finally show ?thesis by (simp add: start_def client0_def)
qed

lemma deref_other:
  "a \<noteq> p \<Longrightarrow> deref p (t\<lparr>heap := (heap t)[a := v]\<rparr>) = deref p t"
  by (simp add: deref_def)

lemma Close_loop_frame:
  assumes "deref (configuration c) s = Some cf"
    and "deref (configuration c) (s\<lparr>heap := h\<rparr>) = Some cf"
    and "PoolSize cf - u = int (Suc n)"
  shows "Close_loop E c u (s\<lparr>heap := h\<rparr>) =
           map_option (\<lambda>(out, s'). (out, s'\<lparr>heap := h\<rparr>)) (Close_loop E c u s)"
  using assms
proof (induction n arbitrary: u s)
  case 0
  then have last: "u + 1 = PoolSize cf" by simp
  obtain out w1 where p: "pull E (pool c) (world s) = (out, w1)"
    by (cases "pull E (pool c) (world s)")
  then have p': "pull E (pool c) (world (s\<lparr>heap := h\<rparr>)) = (out, w1)" by simp
  show ?case
  proof (cases out)
    case (Panic m)
    show ?thesis
      unfolding Close_loop_pull_Panic [OF p [unfolded Panic]]
        Close_loop_pull_Panic [OF p' [unfolded Panic]]
      by simp
  next
    case (Ret r)
    obtain conn e where r: "r = (conn, e)" by (cases r)
    show ?thesis
    proof (cases e)
      case (Some a)
      show ?thesis
        unfolding Close_loop_pull_error [OF p [unfolded Ret r Some]]
          Close_loop_pull_error [OF p' [unfolded Ret r Some]]
        by simp
    next
      case None
      show ?thesis
      proof (cases conn)
        case nil: None
        show ?thesis
          unfolding Close_loop_nil [OF p [unfolded Ret r None nil] "0.prems"(1)]
            Close_loop_nil [OF p' [unfolded Ret r None nil] "0.prems"(2)]
          using last by simp
      next
        case (Some cn)
        obtain o2 w2 where k: "close E (Some cn) w1 = (o2, w2)"
          by (cases "close E (Some cn) w1")
        show ?thesis
        proof (cases o2)
          case (Panic m)
          show ?thesis
            unfolding Close_loop_close_Panic [OF p [unfolded Ret r None Some] k [unfolded Panic]]
              Close_loop_close_Panic [OF p' [unfolded Ret r None Some] k [unfolded Panic]]
            by simp
        next
          case ok: (Ret x)
          show ?thesis
            unfolding Close_loop_closed [OF p [unfolded Ret r None Some] k [unfolded ok] "0.prems"(1)]
              Close_loop_closed [OF p' [unfolded Ret r None Some] k [unfolded ok] "0.prems"(2)]
            using last by simp
        qed
      qed
    qed
  qed
next
  case (Suc n)
  then have more: "u + 1 \<noteq> PoolSize cf" and rest: "PoolSize cf - (u + 1) = int (Suc n)" by simp_all
  obtain out w1 where p: "pull E (pool c) (world s) = (out, w1)"
    by (cases "pull E (pool c) (world s)")
  then have p': "pull E (pool c) (world (s\<lparr>heap := h\<rparr>)) = (out, w1)" by simp
  show ?case
  proof (cases out)
    case (Panic m)
    show ?thesis
      unfolding Close_loop_pull_Panic [OF p [unfolded Panic]]
        Close_loop_pull_Panic [OF p' [unfolded Panic]]
      by simp
  next
    case (Ret r)
    obtain conn e where r: "r = (conn, e)" by (cases r)
    show ?thesis
    proof (cases e)
      case (Some a)
      show ?thesis
        unfolding Close_loop_pull_error [OF p [unfolded Ret r Some]]
          Close_loop_pull_error [OF p' [unfolded Ret r Some]]
        by simp
    next
      case None
      show ?thesis
      proof (cases conn)
        case nil: None
        let ?s2 = "s\<lparr>world := w1, calls := calls s @ [Pull (pool c) (Ret (None, None))]\<rparr>"
        have d: "deref (configuration c) ?s2 = Some cf"
          using Suc.prems(1) by (simp add: deref_upd)
        have e: "(s\<lparr>heap := h\<rparr>)\<lparr>world := w1,
                   calls := calls (s\<lparr>heap := h\<rparr>) @ [Pull (pool c) (Ret (None, None))]\<rparr> =
                 ?s2\<lparr>heap := h\<rparr>"
          by simp
        have d': "deref (configuration c) (?s2\<lparr>heap := h\<rparr>) = Some cf"
          using Suc.prems(2) unfolding e [symmetric] by (simp only: deref_upd)
        show ?thesis
          unfolding Close_loop_nil [OF p [unfolded Ret r None nil] Suc.prems(1)]
            Close_loop_nil [OF p' [unfolded Ret r None nil] Suc.prems(2)] e
          using more Suc.IH [OF d d' rest] by simp
      next
        case (Some cn)
        obtain o2 w2 where k: "close E (Some cn) w1 = (o2, w2)"
          by (cases "close E (Some cn) w1")
        show ?thesis
        proof (cases o2)
          case (Panic m)
          show ?thesis
            unfolding Close_loop_close_Panic [OF p [unfolded Ret r None Some] k [unfolded Panic]]
              Close_loop_close_Panic [OF p' [unfolded Ret r None Some] k [unfolded Panic]]
            by simp
        next
          case ok: (Ret x)
          let ?s2 = "s\<lparr>world := w2,
                  calls := calls s @ [Pull (pool c) (Ret (Some cn, None)), ConnClose (Some cn)]\<rparr>"
          have d: "deref (configuration c) ?s2 = Some cf"
            using Suc.prems(1) by (simp add: deref_upd)
          have e: "(s\<lparr>heap := h\<rparr>)\<lparr>world := w2,
                     calls := calls (s\<lparr>heap := h\<rparr>) @
                       [Pull (pool c) (Ret (Some cn, None)), ConnClose (Some cn)]\<rparr> =
                   ?s2\<lparr>heap := h\<rparr>"
            by simp
          have d': "deref (configuration c) (?s2\<lparr>heap := h\<rparr>) = Some cf"
            using Suc.prems(2) unfolding e [symmetric] by (simp only: deref_upd)
          show ?thesis
            unfolding Close_loop_closed [OF p [unfolded Ret r None Some] k [unfolded ok] Suc.prems(1)]
              Close_loop_closed [OF p' [unfolded Ret r None Some] k [unfolded ok] Suc.prems(2)] e
            using more Suc.IH [OF d d' rest] by simp
        qed
      qed
    qed
  qed
qed

lemma Close_frame:
  assumes "deref (configuration c) t = Some cf" and "0 < PoolSize cf" and "a \<noteq> configuration c"
  shows "Close E c (t\<lparr>heap := (heap t)[a := v]\<rparr>) =
           map_option (\<lambda>(out, t'). (out, t'\<lparr>heap := (heap t)[a := v]\<rparr>)) (Close E c t)"
proof -
  from assms(2) obtain n where n: "PoolSize cf - 0 = int (Suc n)"
    by (metis diff_zero nat_0_iff not_less0 old.nat.exhaust zless_nat_eq_int_zless int_nat_eq less_imp_le)
  have d: "deref (configuration c) (t\<lparr>heap := (heap t)[a := v]\<rparr>) = Some cf"
    using assms(1,3) by (simp add: deref_other)
  show ?thesis unfolding Close_def by (rule Close_loop_frame [OF assms(1) d n])
qed


lemma deferred_invoke:
  "deferred (invoke ev f) (out, s) =
     (case fst (f (world s)) of Panic m \<Rightarrow> Panic m | Ret x \<Rightarrow> out,
      s\<lparr>world := snd (f (world s)), calls := calls s @ [ev (fst (f (world s)))]\<rparr>)"
proof -
  obtain o3 w3 where p: "f (world s) = (o3, w3)" by (cases "f (world s)")
  show ?thesis using p by (cases o3) (simp_all add: deferred_def invoke_eq)
qed

lemma Command_leased_result:
  assumes "pull E (pool c) (world s) = (Ret (conn, None), w1)"
  shows "Command E c cmd args s =
     (case fst (push E (pool c) conn (snd (command E conn zeroReply cmd args w1))) of
        Panic m \<Rightarrow> Panic m
      | Ret x \<Rightarrow> fst (command E conn zeroReply cmd args w1),
      s\<lparr>world := snd (push E (pool c) conn (snd (command E conn zeroReply cmd args w1))),
        calls := calls s @ [Pull (pool c) (Ret (conn, None)), ConnCommand conn cmd args,
                            Push (pool c) conn]\<rparr>)"
proof -
  let ?s1 = "s\<lparr>world := w1, calls := calls s @ [Pull (pool c) (Ret (conn, None))]\<rparr>"
  obtain o2 w2 where k: "command E conn zeroReply cmd args w1 = (o2, w2)"
    by (cases "command E conn zeroReply cmd args w1")
  let ?s2 = "?s1\<lparr>world := w2, calls := calls ?s1 @ [ConnCommand conn cmd args]\<rparr>"
  have 1: "Command E c cmd args s = deferred (pool_push E (pool c) conn) (o2, ?s2)"
    using assms k by (simp add: Command_def pool_pull_def conn_command_def invoke_eq)
  show ?thesis unfolding 1 pool_push_def deferred_invoke k by (simp split: outcome.split)
qed

lemma multiCommand_leased_result:
  assumes "pull E (pool c) (world s) = (Ret (conn, None), w1)"
  shows "multiCommand E c t f s =
     (case fst (push E (pool c) conn (snd (process E t conn f w1))) of
        Panic m \<Rightarrow> Panic m
      | Ret x \<Rightarrow> fst (process E t conn f w1),
      s\<lparr>world := snd (push E (pool c) conn (snd (process E t conn f w1))),
        calls := calls s @ [Pull (pool c) (Ret (conn, None)), Process t conn, Push (pool c) conn]\<rparr>)"
proof -
  let ?s1 = "s\<lparr>world := w1, calls := calls s @ [Pull (pool c) (Ret (conn, None))]\<rparr>"
  obtain o2 w2 where k: "process E t conn f w1 = (o2, w2)"
    by (cases "process E t conn f w1")
  let ?s2 = "?s1\<lparr>world := w2, calls := calls ?s1 @ [Process t conn]\<rparr>"
  have 1: "multiCommand E c t f s = deferred (pool_push E (pool c) conn) (o2, ?s2)"
    using assms k by (simp add: multiCommand_def pool_pull_def mc_process_def invoke_eq)
  show ?thesis unfolding 1 pool_push_def deferred_invoke k by (simp split: outcome.split)
qed

lemma fut_setReply_result:
  assumes "sync = (Ret r, t1)"
  shows "fut_setReply E fut sync =
     (fst (setReply E fut r (world t1)),
      t1\<lparr>world := snd (setReply E fut r (world t1)), calls := calls t1 @ [SetReply fut r]\<rparr>)"
proof -
  obtain o2 w2 where k: "setReply E fut r (world t1) = (o2, w2)"
    by (cases "setReply E fut r (world t1)")
  show ?thesis using assms k by (simp add: fut_setReply_def invoke_eq)
qed

section \<open>Acquisition errors\<close>

text \<open>
  Claim C4. When \<open>pool.pull\<close> fails with an error \<open>e\<close>, \<open>Command\<close> returns the Reply
  whose error is \<open>e\<close> and whose value is absent. The only call it has made is the pull:
  the connection's \<open>command\<close> is not called (nor is \<open>push\<close>), and the collaborators'
  state is the one the pull left.
\<close>

theorem Command_acquisition_error:
  assumes "pull E (pool c) (world s) = (Ret (conn, Some e), w1)"
  shows "Command E c cmd args s =
           (Ret \<lparr>err = Some e, val = None\<rparr>,
            s\<lparr>world := w1, calls := calls s @ [Pull (pool c) (Ret (conn, Some e))]\<rparr>)"
  using assms by (simp add: Command_def pool_pull_def invoke_eq zeroReply_def)

theorem Command_acquisition_error_witness:
  "Command fake client0 ''GET'' [''k''] (start []) =
     (Ret \<lparr>err = Some ''redis: no connection available'', val = None\<rparr>,
      (start [])\<lparr>calls := [Pull 0 (Ret (None, Some ''redis: no connection available''))]\<rparr>)"
  using Command_acquisition_error
    [of fake client0 "start []" None "''redis: no connection available''" "world (start [])"
        "''GET''" "[''k'']"]
  by (simp add: fake_def spec_pull_def start_def client0_def)

text \<open>
  Claim C5. \<open>multiCommand\<close> pulls one connection. If the pull fails with \<open>e\<close> it
  returns the Reply carrying \<open>e\<close> and has called neither the batch (which is what
  invokes \<open>f\<close>) nor \<open>push\<close>. If the pull succeeds, it runs the batch on that
  connection with the given flag, from the state the pull left, and then \<open>push\<close> on that
  connection, from the state the batch left: the collaborators' state it leaves is the one
  that \<open>push\<close> leaves, the calls are the pull, the batch and one push, and the outcome
  is the batch's (a Reply or a panic) unless \<open>push\<close> panics. \<open>MultiCommand\<close> and
  \<open>Transaction\<close> are \<open>multiCommand\<close> with the flag false and true.
\<close>

theorem multiCommand_one_lease:
  "(\<forall>conn e w1. pull E (pool c) (world s) = (Ret (conn, Some e), w1) \<longrightarrow>
      multiCommand E c t f s =
        (Ret \<lparr>err = Some e, val = None\<rparr>,
         s\<lparr>world := w1, calls := calls s @ [Pull (pool c) (Ret (conn, Some e))]\<rparr>)) \<and>
   (\<forall>conn w1. pull E (pool c) (world s) = (Ret (conn, None), w1) \<longrightarrow>
      multiCommand E c t f s =
        (case fst (push E (pool c) conn (snd (process E t conn f w1))) of
           Panic m \<Rightarrow> Panic m
         | Ret x \<Rightarrow> fst (process E t conn f w1),
         s\<lparr>world := snd (push E (pool c) conn (snd (process E t conn f w1))),
           calls := calls s @ [Pull (pool c) (Ret (conn, None)), Process t conn,
                               Push (pool c) conn]\<rparr>)) \<and>
   MultiCommand E c f s = multiCommand E c False f s \<and>
   Transaction E c f s = multiCommand E c True f s"
  using multiCommand_error [of E c s _ _ _ t f] multiCommand_leased_result [of E c s _ _ t f]
  by (simp add: MultiCommand_def Transaction_def)

theorem multiCommand_one_lease_witness:
  "multiCommand fake client0 True () (start [7]) =
     (Ret \<lparr>err = None, val = Some ''OK''\<rparr>,
      \<lparr>world = \<lparr>idle = [7], ext = 0\<rparr>, heap = [],
       calls = [Pull 0 (Ret (Some 7, None)), Process True (Some 7), Push 0 (Some 7)],
       spawned = []\<rparr>) \<and>
   multiCommand fake client0 False () (start []) =
     (Ret \<lparr>err = Some ''redis: no connection available'', val = None\<rparr>,
      (start [])\<lparr>calls := [Pull 0 (Ret (None, Some ''redis: no connection available''))]\<rparr>)"
proof -
  have p: "pull fake (pool client0) (world (start [7])) = (Ret (Some 7, None), \<lparr>idle = [], ext = 0\<rparr>)"
    by (simp add: fake_def spec_pull_def start_def)
  have q: "pull fake (pool client0) (world (start [])) =
             (Ret (None, Some ''redis: no connection available''), world (start []))"
    by (simp add: fake_def spec_pull_def start_def)
  note a = multiCommand_one_lease [of fake client0 "start [7]" True "()", THEN conjunct2, THEN conjunct1,
      rule_format, OF p]
  note b = multiCommand_one_lease [of fake client0 "start []" False "()", THEN conjunct1, rule_format, OF q]
  have a': "multiCommand fake client0 True () (start [7]) =
     (Ret \<lparr>err = None, val = Some ''OK''\<rparr>,
      \<lparr>world = \<lparr>idle = [7], ext = 0\<rparr>, heap = [],
       calls = [Pull 0 (Ret (Some 7, None)), Process True (Some 7), Push 0 (Some 7)],
       spawned = []\<rparr>)"
    unfolding a by (simp add: fake_def spec_push_def start_def client0_def)
  have b': "multiCommand fake client0 False () (start []) =
     (Ret \<lparr>err = Some ''redis: no connection available'', val = None\<rparr>,
      (start [])\<lparr>calls := [Pull 0 (Ret (None, Some ''redis: no connection available''))]\<rparr>)"
    unfolding b by (simp add: start_def client0_def)
  from a' b' show ?thesis by blast
qed

section \<open>Construction\<close>

text \<open>
  Claim C6. With both \<open>Address\<close> and \<open>Path\<close> non-empty, \<open>checkConfiguration\<close>
  panics, and so does \<open>NewClient\<close>, with this message and before any pool is created:
  a panic, not a returned error value. With at most one of them set,
  \<open>checkConfiguration\<close> returns, \<open>NewClient\<close> goes on to create the pool, and its
  outcome is the client unless \<open>newConnectionPool\<close> itself panics.
\<close>

theorem NewClient_address_and_path:
  "(Address c \<noteq> [] \<and> Path c \<noteq> [] \<longrightarrow>
      checkConfiguration c = Panic ''redis: configuration has both tcp/ip address and unix path'' \<and>
      fst (NewClient E c s) = Panic ''redis: configuration has both tcp/ip address and unix path'' \<and>
      calls (snd (NewClient E c s)) = calls s \<and> world (snd (NewClient E c s)) = world s) \<and>
   (\<not> (Address c \<noteq> [] \<and> Path c \<noteq> []) \<longrightarrow>
      (\<exists>c'. checkConfiguration c = Ret c' \<and>
         calls (snd (NewClient E c s)) = calls s @ [NewConnectionPool c'] \<and>
         (case fst (newConnectionPool E c' (world s)) of
            Panic m \<Rightarrow> fst (NewClient E c s) = Panic m
          | Ret cp \<Rightarrow> fst (NewClient E c s) = Ret \<lparr>configuration = length (heap s), pool = cp\<rparr>)))"
proof (intro conjI impI)
  assume b: "Address c \<noteq> [] \<and> Path c \<noteq> []"
  note p = checkConfiguration_both [OF b]
  show "checkConfiguration c = Panic ''redis: configuration has both tcp/ip address and unix path''"
    by (rule p)
  show "fst (NewClient E c s) = Panic ''redis: configuration has both tcp/ip address and unix path''"
    by (simp add: NewClient_Panic [OF p])
  show "calls (snd (NewClient E c s)) = calls s"
    by (simp add: NewClient_Panic [OF p])
  show "world (snd (NewClient E c s)) = world s"
    by (simp add: NewClient_Panic [OF p])
next
  assume nb: "\<not> (Address c \<noteq> [] \<and> Path c \<noteq> [])"
  from checkConfiguration_fields [OF nb] obtain c' where r: "checkConfiguration c = Ret c'"
    by blast
  obtain out w where n: "newConnectionPool E c' (world s) = (out, w)"
    by (cases "newConnectionPool E c' (world s)")
  have "calls (snd (NewClient E c s)) = calls s @ [NewConnectionPool c']"
    by (simp add: NewClient_Ret [OF r n])
  moreover have "(case fst (newConnectionPool E c' (world s)) of
            Panic m \<Rightarrow> fst (NewClient E c s) = Panic m
          | Ret cp \<Rightarrow> fst (NewClient E c s) = Ret \<lparr>configuration = length (heap s), pool = cp\<rparr>)"
    by (cases out) (simp_all add: NewClient_Ret [OF r n] n)
  ultimately show "\<exists>c'. checkConfiguration c = Ret c' \<and>
         calls (snd (NewClient E c s)) = calls s @ [NewConnectionPool c'] \<and>
         (case fst (newConnectionPool E c' (world s)) of
            Panic m \<Rightarrow> fst (NewClient E c s) = Panic m
          | Ret cp \<Rightarrow> fst (NewClient E c s) = Ret \<lparr>configuration = length (heap s), pool = cp\<rparr>)"
    using r by blast
qed

theorem NewClient_address_and_path_witness:
  "fst (NewClient fake (zeroConfiguration\<lparr>Address := ''10.0.0.1:6379'', Path := ''/tmp/redis.sock''\<rparr>)
         (start [])) =
     Panic ''redis: configuration has both tcp/ip address and unix path'' \<and>
   fst (NewClient fake (zeroConfiguration\<lparr>Path := ''/tmp/redis.sock''\<rparr>) (start [])) =
     Ret \<lparr>configuration = 0, pool = 0\<rparr>"
  using NewClient_address_and_path
      [of "zeroConfiguration\<lparr>Address := ''10.0.0.1:6379'', Path := ''/tmp/redis.sock''\<rparr>" fake "start []"]
    NewClient_address_and_path [of "zeroConfiguration\<lparr>Path := ''/tmp/redis.sock''\<rparr>" fake "start []"]
  by (auto simp add: zeroConfiguration_def fake_def start_def)

text \<open>
  Claim C7. When validation passes, the stored configuration has address
  \<open>127.0.0.1:6379\<close> if neither address nor path was set, database index 0 if it was
  negative, pool size 10 if it was not positive, and every other field, and these three
  otherwise, as passed; this is what the client's configuration pointer refers to when
  \<open>NewClient\<close> returns. The zero value \<open>Configuration{}\<close> yields \<open>127.0.0.1:6379\<close>,
  0 and 10.
\<close>

theorem checkConfiguration_defaults:
  assumes "\<not> (Address c \<noteq> [] \<and> Path c \<noteq> [])"
  shows "(\<exists>c'. checkConfiguration c = Ret c'
     \<and> Address c' = (if Address c = [] \<and> Path c = [] then ''127.0.0.1:6379'' else Address c)
     \<and> Database c' = (if Database c < 0 then 0 else Database c)
     \<and> PoolSize c' = (if PoolSize c \<le> 0 then 10 else PoolSize c)
     \<and> Path c' = Path c \<and> Auth c' = Auth c \<and> Timeout c' = Timeout c
     \<and> NoLoadingRetry c' = NoLoadingRetry c
     \<and> (\<forall>(E :: ('w, 'f, 'h) collab) (s :: ('w, 'f) state) cl s'.
           NewClient E c s = (Ret cl, s') \<longrightarrow> deref (configuration cl) s' = Some c'))
   \<and> checkConfiguration zeroConfiguration =
       Ret \<lparr>Address = ''127.0.0.1:6379'', Path = [], Database = 0, Auth = [], PoolSize = 10,
            Timeout = 0, NoLoadingRetry = False\<rparr>"
proof
  from checkConfiguration_fields [OF assms] obtain c' where
    r: "checkConfiguration c = Ret c'" and
    f: "Address c' = (if Address c = [] \<and> Path c = [] then ''127.0.0.1:6379'' else Address c)
     \<and> Database c' = (if Database c < 0 then 0 else Database c)
     \<and> PoolSize c' = (if PoolSize c \<le> 0 then 10 else PoolSize c)
     \<and> Path c' = Path c \<and> Auth c' = Auth c \<and> Timeout c' = Timeout c
     \<and> NoLoadingRetry c' = NoLoadingRetry c"
    by blast
  have "\<forall>(E :: ('w, 'f, 'h) collab) (s :: ('w, 'f) state) cl s'.
           NewClient E c s = (Ret cl, s') \<longrightarrow> deref (configuration cl) s' = Some c'"
    using NewClient_stores [OF r] by blast
  with r f show "\<exists>c'. checkConfiguration c = Ret c'
     \<and> Address c' = (if Address c = [] \<and> Path c = [] then ''127.0.0.1:6379'' else Address c)
     \<and> Database c' = (if Database c < 0 then 0 else Database c)
     \<and> PoolSize c' = (if PoolSize c \<le> 0 then 10 else PoolSize c)
     \<and> Path c' = Path c \<and> Auth c' = Auth c \<and> Timeout c' = Timeout c
     \<and> NoLoadingRetry c' = NoLoadingRetry c
     \<and> (\<forall>(E :: ('w, 'f, 'h) collab) (s :: ('w, 'f) state) cl s'.
           NewClient E c s = (Ret cl, s') \<longrightarrow> deref (configuration cl) s' = Some c')"
    by blast
  show "checkConfiguration zeroConfiguration =
       Ret \<lparr>Address = ''127.0.0.1:6379'', Path = [], Database = 0, Auth = [], PoolSize = 10,
            Timeout = 0, NoLoadingRetry = False\<rparr>"
    by (simp add: checkConfiguration_def zeroConfiguration_def)
qed

theorem checkConfiguration_defaults_witness:
  "checkConfiguration (zeroConfiguration\<lparr>Path := ''/tmp/redis.sock'', Database := - 3, PoolSize := 4\<rparr>)
     = Ret (zeroConfiguration\<lparr>Path := ''/tmp/redis.sock'', Database := 0, PoolSize := 4\<rparr>)"
  using checkConfiguration_defaults
    [of "zeroConfiguration\<lparr>Path := ''/tmp/redis.sock'', Database := - 3, PoolSize := 4\<rparr>"]
  by (auto simp add: zeroConfiguration_def)

section \<open>Subscription\<close>

text \<open>
  Claim C8. \<open>Subscription\<close> with a nil handler panics, before anything is called. With a
  handler: if \<open>newSubscription\<close> returns an error, the result is a nil subscription and
  that error; if it returns a subscription and no error, the result is that subscription
  and a nil error. The result is never both a subscription and an error.
\<close>

theorem Subscription_result:
  "Subscription E c None s = (Panic ''redis: message handler must not be nil'', s) \<and>
   (\<forall>h sub e w1. newSubscription E c h (world s) = (Ret (sub, Some e), w1) \<longrightarrow>
       fst (Subscription E c (Some h) s) = Ret (None, Some e)) \<and>
   (\<forall>h sub w1. newSubscription E c h (world s) = (Ret (Some sub, None), w1) \<longrightarrow>
       fst (Subscription E c (Some h) s) = Ret (Some sub, None)) \<and>
   (\<forall>h sub e. fst (Subscription E c h s) \<noteq> Ret (Some sub, Some e))"
proof (intro conjI allI impI)
  show "Subscription E c None s = (Panic ''redis: message handler must not be nil'', s)"
    by (simp add: Subscription_def)
next
  fix h sub e w1 assume "newSubscription E c h (world s) = (Ret (sub, Some e), w1)"
  then show "fst (Subscription E c (Some h) s) = Ret (None, Some e)"
    by (simp add: Subscription_def invoke_eq)
next
  fix h sub w1 assume "newSubscription E c h (world s) = (Ret (Some sub, None), w1)"
  then show "fst (Subscription E c (Some h) s) = Ret (Some sub, None)"
    by (simp add: Subscription_def invoke_eq)
next
  fix h sub e
  show "fst (Subscription E c h s) \<noteq> Ret (Some sub, Some e)"
  proof (cases h)
    case None
    then show ?thesis by (simp add: Subscription_def)
  next
    case (Some g)
    obtain out w1 where n: "newSubscription E c g (world s) = (out, w1)"
      by (cases "newSubscription E c g (world s)")
    show ?thesis
    proof (cases out)
      case (Panic m)
      with Some n show ?thesis by (simp add: Subscription_def invoke_eq)
    next
      case (Ret r)
      obtain sb er where r: "r = (sb, er)" by (cases r)
      with Some n Ret show ?thesis by (cases er) (simp_all add: Subscription_def invoke_eq)
    qed
  qed
qed

theorem Subscription_result_witness:
  "fst (Subscription fake client0 (Some ()) (start [])) = Ret (Some 0, None) \<and>
   fst (Subscription (fake\<lparr>newSubscription := (\<lambda>c h w. (Ret (None, Some ''ERR''), w))\<rparr>)
          client0 (Some ()) (start [])) = Ret (None, Some ''ERR'')"
  using Subscription_result [of fake client0 "start []"]
    Subscription_result
      [of "fake\<lparr>newSubscription := (\<lambda>c h w. (Ret (None, Some ''ERR''), w))\<rparr>" client0 "start []"]
  by (auto simp add: fake_def)

section \<open>Leases are returned\<close>

text \<open>
  Claim C1. When \<open>pool.pull\<close> succeeds, \<open>Command\<close> runs the connection's
  \<open>command\<close> from the state the pull left and then \<open>push\<close> on the connection that
  was pulled, from the state the command left: the collaborators' state it leaves is the
  one that \<open>push\<close> leaves, the calls are the pull, the command and exactly one push, and
  the outcome is the command's (a Reply with or without an error, or a panic: the push is
  deferred) unless \<open>push\<close> panics. Consequently, with the pool of section 4.2 of the spec
  and a codec that does not touch the pool, the idle connections after any sequence of
  \<open>Command\<close> calls are those before it, and so is their number.
\<close>

theorem Command_releases_once:
  fixes E :: "('x pworld, 'f, 'h) collab"
  shows "(\<forall>conn w1. pull E (pool c) (world s) = (Ret (conn, None), w1) \<longrightarrow>
      Command E c cmd args s =
        (case fst (push E (pool c) conn (snd (command E conn zeroReply cmd args w1))) of
           Panic m \<Rightarrow> Panic m
         | Ret x \<Rightarrow> fst (command E conn zeroReply cmd args w1),
         s\<lparr>world := snd (push E (pool c) conn (snd (command E conn zeroReply cmd args w1))),
           calls := calls s @ [Pull (pool c) (Ret (conn, None)), ConnCommand conn cmd args,
                               Push (pool c) conn]\<rparr>)) \<and>
   (pull E = spec_pull \<and> push E = spec_push \<and>
    (\<forall>conn r cmd args w. idle (snd (command E conn r cmd args w)) = idle w) \<longrightarrow>
      (\<forall>cs. idle (world (snd (Command_seq E c cs s))) = idle (world s) \<and>
            length (idle (world (snd (Command_seq E c cs s)))) = length (idle (world s))))"
  using Command_leased_result [of E c s _ _ cmd args] Command_seq_idle [of E c _ s] by simp

theorem Command_releases_once_witness:
  "Command fake client0 ''FAIL'' [] (start [1, 2]) =
     (Ret \<lparr>err = Some ''ERR'', val = None\<rparr>,
      \<lparr>world = \<lparr>idle = [1, 2], ext = 0\<rparr>, heap = [],
       calls = [Pull 0 (Ret (Some 1, None)), ConnCommand (Some 1) ''FAIL'' [], Push 0 (Some 1)],
       spawned = []\<rparr>) \<and>
   length (idle (world (snd (Command_seq fake client0 [(''GET'', [''k'']), (''FAIL'', [])] (start [1, 2]))))) = 2"
proof -
  have p: "pull fake (pool client0) (world (start [1, 2])) = (Ret (Some 1, None), \<lparr>idle = [2], ext = 0\<rparr>)"
    by (simp add: fake_def spec_pull_def start_def)
  have h: "pull fake = spec_pull \<and> push fake = spec_push \<and>
           (\<forall>conn r cmd args w. idle (snd (command fake conn r cmd args w)) = idle w)"
    by (simp add: fake_def)
  note t = Command_releases_once [of fake client0 "start [1, 2]" "''FAIL''" "[]"]
  note a = t [THEN conjunct1, rule_format, OF p]
  have a': "Command fake client0 ''FAIL'' [] (start [1, 2]) =
     (Ret \<lparr>err = Some ''ERR'', val = None\<rparr>,
      \<lparr>world = \<lparr>idle = [1, 2], ext = 0\<rparr>, heap = [],
       calls = [Pull 0 (Ret (Some 1, None)), ConnCommand (Some 1) ''FAIL'' [], Push 0 (Some 1)],
       spawned = []\<rparr>)"
    unfolding a by (simp add: fake_def spec_push_def start_def client0_def zeroReply_def)
  from t [THEN conjunct2, rule_format, OF h, of "[(''GET'', [''k'']), (''FAIL'', [])]", THEN conjunct2]
  have b: "length (idle (world (snd (Command_seq fake client0 [(''GET'', [''k'']), (''FAIL'', [])]
      (start [1, 2]))))) = 2"
    by (simp add: start_def)
  from a' b show ?thesis by blast
qed

section \<open>Asynchronous calls\<close>

text \<open>
  Claim C3. \<open>AsyncCommand\<close>, \<open>AsyncMultiCommand\<close> and \<open>AsyncTransaction\<close> return
  the new future at once and start one goroutine. Whenever that goroutine runs, at a
  state \<open>t\<close>, and the synchronous call (\<open>Command\<close>, \<open>MultiCommand\<close>,
  \<open>Transaction\<close>) returns the Reply \<open>r\<close> from \<open>t\<close>, leaving the state \<open>t1\<close>, the
  goroutine leaves the state that \<open>setReply\<close> of \<open>r\<close> on that future leaves from
  \<open>t1\<close>: it has done what the synchronous call does and then written \<open>r\<close> to the
  future, once.
\<close>

theorem Async_fulfils_with_sync_reply:
  "(\<forall>fut w1. newFuture E (world s) = (Ret fut, w1) \<longrightarrow>
      AsyncCommand E c cmd args s =
        (Ret fut, s\<lparr>world := w1, calls := calls s @ [NewFuture],
                    spawned := spawned s @ [GoCommand c fut cmd args]\<rparr>) \<and>
      AsyncMultiCommand E c f s =
        (Ret fut, s\<lparr>world := w1, calls := calls s @ [NewFuture],
                    spawned := spawned s @ [GoMultiCommand c fut f]\<rparr>) \<and>
      AsyncTransaction E c f s =
        (Ret fut, s\<lparr>world := w1, calls := calls s @ [NewFuture],
                    spawned := spawned s @ [GoTransaction c fut f]\<rparr>)) \<and>
   (\<forall>fut r t1. Command E c cmd args t = (Ret r, t1) \<longrightarrow>
      run_task E (GoCommand c fut cmd args) t =
        (fst (setReply E fut r (world t1)),
         t1\<lparr>world := snd (setReply E fut r (world t1)), calls := calls t1 @ [SetReply fut r]\<rparr>) \<and>
      length (filter (isSetReply fut)
        (drop (length (calls t)) (calls (snd (run_task E (GoCommand c fut cmd args) t))))) = 1) \<and>
   (\<forall>fut r t1. MultiCommand E c f t = (Ret r, t1) \<longrightarrow>
      run_task E (GoMultiCommand c fut f) t =
        (fst (setReply E fut r (world t1)),
         t1\<lparr>world := snd (setReply E fut r (world t1)), calls := calls t1 @ [SetReply fut r]\<rparr>) \<and>
      length (filter (isSetReply fut)
        (drop (length (calls t)) (calls (snd (run_task E (GoMultiCommand c fut f) t))))) = 1) \<and>
   (\<forall>fut r t1. Transaction E c f t = (Ret r, t1) \<longrightarrow>
      run_task E (GoTransaction c fut f) t =
        (fst (setReply E fut r (world t1)),
         t1\<lparr>world := snd (setReply E fut r (world t1)), calls := calls t1 @ [SetReply fut r]\<rparr>) \<and>
      length (filter (isSetReply fut)
        (drop (length (calls t)) (calls (snd (run_task E (GoTransaction c fut f) t))))) = 1)"
proof (intro conjI allI impI)
  fix fut w1 assume n: "newFuture E (world s) = (Ret fut, w1)"
  show "AsyncCommand E c cmd args s =
        (Ret fut, s\<lparr>world := w1, calls := calls s @ [NewFuture],
                    spawned := spawned s @ [GoCommand c fut cmd args]\<rparr>)"
    by (rule Async_spawn(1) [OF n])
  show "AsyncMultiCommand E c f s =
        (Ret fut, s\<lparr>world := w1, calls := calls s @ [NewFuture],
                    spawned := spawned s @ [GoMultiCommand c fut f]\<rparr>)"
    by (rule Async_spawn(2) [OF n])
  show "AsyncTransaction E c f s =
        (Ret fut, s\<lparr>world := w1, calls := calls s @ [NewFuture],
                    spawned := spawned s @ [GoTransaction c fut f]\<rparr>)"
    by (rule Async_spawn(3) [OF n])
next
  fix fut r t1 assume k: "Command E c cmd args t = (Ret r, t1)"
  show "run_task E (GoCommand c fut cmd args) t =
        (fst (setReply E fut r (world t1)),
         t1\<lparr>world := snd (setReply E fut r (world t1)), calls := calls t1 @ [SetReply fut r]\<rparr>)"
    unfolding run_task.simps by (rule fut_setReply_result [OF k])
  note f = fut_setReply_once [where E = E and fut = fut, OF k Command_no_setReply]
  from f show "length (filter (isSetReply fut)
        (drop (length (calls t)) (calls (snd (run_task E (GoCommand c fut cmd args) t))))) = 1"
    unfolding run_task.simps by (rule conjunct2)
next
  fix fut r t1 assume k: "MultiCommand E c f t = (Ret r, t1)"
  show "run_task E (GoMultiCommand c fut f) t =
        (fst (setReply E fut r (world t1)),
         t1\<lparr>world := snd (setReply E fut r (world t1)), calls := calls t1 @ [SetReply fut r]\<rparr>)"
    unfolding run_task.simps by (rule fut_setReply_result [OF k])
  have "\<exists>tr. calls (snd (MultiCommand E c f t)) = calls t @ tr \<and> filter (isSetReply fut) tr = []"
    unfolding MultiCommand_def by (rule multiCommand_no_setReply)
  note f = fut_setReply_once [where E = E, OF k this]
  from f show "length (filter (isSetReply fut)
        (drop (length (calls t)) (calls (snd (run_task E (GoMultiCommand c fut f) t))))) = 1"
    unfolding run_task.simps by (rule conjunct2)
next
  fix fut r t1 assume k: "Transaction E c f t = (Ret r, t1)"
  show "run_task E (GoTransaction c fut f) t =
        (fst (setReply E fut r (world t1)),
         t1\<lparr>world := snd (setReply E fut r (world t1)), calls := calls t1 @ [SetReply fut r]\<rparr>)"
    unfolding run_task.simps by (rule fut_setReply_result [OF k])
  have "\<exists>tr. calls (snd (Transaction E c f t)) = calls t @ tr \<and> filter (isSetReply fut) tr = []"
    unfolding Transaction_def by (rule multiCommand_no_setReply)
  note f = fut_setReply_once [where E = E, OF k this]
  from f show "length (filter (isSetReply fut)
        (drop (length (calls t)) (calls (snd (run_task E (GoTransaction c fut f) t))))) = 1"
    unfolding run_task.simps by (rule conjunct2)
qed

theorem Async_fulfils_with_sync_reply_witness:
  "AsyncCommand fakeFut client0 ''GET'' [''k''] (startFut [5]) =
     (Ret 0, \<lparr>world = \<lparr>idle = [5], ext = (1, [])\<rparr>, heap = [], calls = [NewFuture],
              spawned = [GoCommand client0 0 ''GET'' [''k'']]\<rparr>) \<and>
   run_task fakeFut (GoCommand client0 0 ''GET'' [''k'']) (startFut [5]) =
     (Ret (),
      \<lparr>world = \<lparr>idle = [5], ext = (0, [(0, \<lparr>err = None, val = Some ''v''\<rparr>)])\<rparr>, heap = [],
       calls = [Pull 0 (Ret (Some 5, None)), ConnCommand (Some 5) ''GET'' [''k''], Push 0 (Some 5),
                SetReply 0 \<lparr>err = None, val = Some ''v''\<rparr>],
       spawned = []\<rparr>)"
proof -
  have n: "newFuture fakeFut (world (startFut [5])) = (Ret 0, \<lparr>idle = [5], ext = (1, [])\<rparr>)"
    by (simp add: fakeFut_def startFut_def)
  have k: "Command fakeFut client0 ''GET'' [''k''] (startFut [5]) =
     (Ret \<lparr>err = None, val = Some ''v''\<rparr>,
      \<lparr>world = \<lparr>idle = [5], ext = (0, [])\<rparr>, heap = [],
       calls = [Pull 0 (Ret (Some 5, None)), ConnCommand (Some 5) ''GET'' [''k''], Push 0 (Some 5)],
       spawned = []\<rparr>)"
    by (simp add: Command_def pool_pull_def pool_push_def conn_command_def invoke_def deferred_def
        fakeFut_def spec_pull_def spec_push_def startFut_def client0_def zeroReply_def)
  note t = Async_fulfils_with_sync_reply [of fakeFut "startFut [5]" client0 "''GET''" "[''k'']" "()" "startFut [5]"]
  note a = t [THEN conjunct1, rule_format, OF n, THEN conjunct1]
  note b = t [THEN conjunct2, THEN conjunct1, rule_format, OF k, THEN conjunct1]
  have a': "AsyncCommand fakeFut client0 ''GET'' [''k''] (startFut [5]) =
     (Ret 0, \<lparr>world = \<lparr>idle = [5], ext = (1, [])\<rparr>, heap = [], calls = [NewFuture],
              spawned = [GoCommand client0 0 ''GET'' [''k'']]\<rparr>)"
    unfolding a by (simp add: startFut_def)
  have b': "run_task fakeFut (GoCommand client0 0 ''GET'' [''k'']) (startFut [5]) =
     (Ret (),
      \<lparr>world = \<lparr>idle = [5], ext = (0, [(0, \<lparr>err = None, val = Some ''v''\<rparr>)])\<rparr>, heap = [],
       calls = [Pull 0 (Ret (Some 5, None)), ConnCommand (Some 5) ''GET'' [''k''], Push 0 (Some 5),
                SetReply 0 \<lparr>err = None, val = Some ''v''\<rparr>],
       spawned = []\<rparr>)"
    unfolding b by (simp add: fakeFut_def)
  from a' b' show ?thesis by blast
qed

section \<open>Close\<close>




text \<open>
  Claim C10. In \<open>Close\<close> (for a client with a positive pool size) \<open>close\<close> is never
  called on a nil connection: the calls of \<open>close\<close> are as many as the pulls that
  returned a connection. A pull that succeeds with a nil connection counts all the same:
  when \<open>Close\<close> returns normally and no pull failed, the successful pulls, nil ones
  included, are exactly \<open>PoolSize\<close>. So it may stop after \<open>PoolSize\<close> successful pulls
  having closed fewer connections: with pool size 2 and a pool that hands out nil, it
  returns after two pulls and no \<open>close\<close>.
\<close>

theorem Close_skips_nil_connection:
  "(deref (configuration c) s = Some cf \<and> 0 < PoolSize cf \<longrightarrow>
      (\<exists>out s' tr. Close E c s = Some (out, s') \<and> calls s' = calls s @ tr \<and>
         ConnClose None \<notin> set tr \<and>
         length (filter isClose tr) = length (filter isAcquiredConn tr) \<and>
         (out = Ret () \<and> filter isFailedPull tr = [] \<longrightarrow>
            length (filter isAcquired tr) = nat (PoolSize cf)))) \<and>
   Close nilPool client0 ((start [])\<lparr>heap := [zeroConfiguration\<lparr>PoolSize := 2\<rparr>]\<rparr>) =
     Some (Ret (), (start [])\<lparr>heap := [zeroConfiguration\<lparr>PoolSize := 2\<rparr>],
                              calls := [Pull 0 (Ret (None, None)), Pull 0 (Ret (None, None))]\<rparr>)"
proof (intro conjI impI)
  assume a: "deref (configuration c) s = Some cf \<and> 0 < PoolSize cf"
  from Close_run [of c s cf E] a obtain out s' tr where
    r: "Close E c s = Some (out, s')" "calls s' = calls s @ tr" and
    cr: "close_run (nat (PoolSize cf)) out tr"
    by blast
  from cr have "ConnClose None \<notin> set tr \<and>
         length (filter isClose tr) = length (filter isAcquiredConn tr) \<and>
         (out = Ret () \<and> filter isFailedPull tr = [] \<longrightarrow>
            length (filter isAcquired tr) = nat (PoolSize cf))"
    unfolding close_run_def by force
  with r show "\<exists>out s' tr. Close E c s = Some (out, s') \<and> calls s' = calls s @ tr \<and>
         ConnClose None \<notin> set tr \<and>
         length (filter isClose tr) = length (filter isAcquiredConn tr) \<and>
         (out = Ret () \<and> filter isFailedPull tr = [] \<longrightarrow>
            length (filter isAcquired tr) = nat (PoolSize cf))"
    by blast
next
  show "Close nilPool client0 ((start [])\<lparr>heap := [zeroConfiguration\<lparr>PoolSize := 2\<rparr>]\<rparr>) =
     Some (Ret (), (start [])\<lparr>heap := [zeroConfiguration\<lparr>PoolSize := 2\<rparr>],
                              calls := [Pull 0 (Ret (None, None)), Pull 0 (Ret (None, None))]\<rparr>)"
    by (rule Close_nilPool)
qed

theorem Close_skips_nil_connection_witness:
  "\<exists>out s' tr.
     Close fake client0 ((start [4])\<lparr>heap := [zeroConfiguration\<lparr>PoolSize := 2\<rparr>]\<rparr>) = Some (out, s') \<and>
     calls s' = tr \<and> ConnClose None \<notin> set tr \<and>
     length (filter isClose tr) = length (filter isAcquiredConn tr)"
proof -
  let ?S = "(start [4])\<lparr>heap := [zeroConfiguration\<lparr>PoolSize := 2\<rparr>]\<rparr>"
  let ?cf = "zeroConfiguration\<lparr>PoolSize := 2\<rparr>"
  have h: "deref (configuration client0) ?S = Some ?cf \<and> 0 < PoolSize ?cf"
    by (simp add: deref_def client0_def start_def)
  have e: "calls ?S = []" by (simp add: start_def)
  from Close_skips_nil_connection [where E = fake and c = client0 and s = ?S and cf = ?cf,
      THEN conjunct1, rule_format, OF h]
  obtain out s' tr where "Close fake client0 ?S = Some (out, s')" "calls s' = calls ?S @ tr"
    "ConnClose None \<notin> set tr" "length (filter isClose tr) = length (filter isAcquiredConn tr)"
    by blast
  then show ?thesis unfolding e by simp
qed

section \<open>The client's configuration is its own\<close>

text \<open>
  Claim C9. When \<open>NewClient\<close> returns, the client's configuration pointer is the
  address of a cell that did not exist before the call, so no pointer or variable of the
  caller refers to it; the cell holds the checked copy of the argument. A write to any
  other address \<open>a\<close>, in any later state \<open>t\<close> in which the cell still holds that
  copy, leaves the cell as it is, and \<open>Close\<close> returns the same outcome and makes the
  same calls as without the write.
\<close>

theorem NewClient_private_copy:
  "NewClient E conf s = (Ret c, s1) \<longrightarrow>
     (\<exists>cf. checkConfiguration conf = Ret cf \<and> deref (configuration c) s1 = Some cf \<and>
        configuration c = length (heap s) \<and> deref (configuration c) s = None \<and>
        (\<forall>t a v. deref (configuration c) t = Some cf \<and> a \<noteq> configuration c \<longrightarrow>
           deref (configuration c) (t\<lparr>heap := (heap t)[a := v]\<rparr>) = Some cf \<and>
           Close E c (t\<lparr>heap := (heap t)[a := v]\<rparr>) =
             map_option (\<lambda>(out, t'). (out, t'\<lparr>heap := (heap t)[a := v]\<rparr>)) (Close E c t)))"
proof
  assume "NewClient E conf s = (Ret c, s1)"
  from NewClient_PoolSize [OF this] obtain cf where
    r: "checkConfiguration conf = Ret cf" and d: "deref (configuration c) s1 = Some cf" and
    ps: "0 < PoolSize cf" and fr: "configuration c = length (heap s)"
    by blast
  have n: "deref (configuration c) s = None" by (simp add: fr deref_def)
  have "\<forall>t a v. deref (configuration c) t = Some cf \<and> a \<noteq> configuration c \<longrightarrow>
           deref (configuration c) (t\<lparr>heap := (heap t)[a := v]\<rparr>) = Some cf \<and>
           Close E c (t\<lparr>heap := (heap t)[a := v]\<rparr>) =
             map_option (\<lambda>(out, t'). (out, t'\<lparr>heap := (heap t)[a := v]\<rparr>)) (Close E c t)"
    using Close_frame [OF _ ps, of c _ _ E] by (simp add: deref_other)
  with r d fr n show "\<exists>cf. checkConfiguration conf = Ret cf \<and> deref (configuration c) s1 = Some cf \<and>
        configuration c = length (heap s) \<and> deref (configuration c) s = None \<and>
        (\<forall>t a v. deref (configuration c) t = Some cf \<and> a \<noteq> configuration c \<longrightarrow>
           deref (configuration c) (t\<lparr>heap := (heap t)[a := v]\<rparr>) = Some cf \<and>
           Close E c (t\<lparr>heap := (heap t)[a := v]\<rparr>) =
             map_option (\<lambda>(out, t'). (out, t'\<lparr>heap := (heap t)[a := v]\<rparr>)) (Close E c t))"
    by blast
qed

theorem NewClient_private_copy_witness:
  "deref 1 ((snd (NewClient fake zeroConfiguration ((start [])\<lparr>heap := [zeroConfiguration]\<rparr>)))
              \<lparr>heap := (heap (snd (NewClient fake zeroConfiguration
                                 ((start [])\<lparr>heap := [zeroConfiguration]\<rparr>))))
                         [0 := zeroConfiguration\<lparr>PoolSize := 99\<rparr>]\<rparr>) =
     Some (zeroConfiguration\<lparr>Address := ''127.0.0.1:6379'', PoolSize := 10\<rparr>)"
proof -
  let ?S = "(start [])\<lparr>heap := [zeroConfiguration]\<rparr>"
  let ?c = "\<lparr>configuration = 1, pool = 0\<rparr>"
  let ?cf = "zeroConfiguration\<lparr>Address := ''127.0.0.1:6379'', PoolSize := 10\<rparr>"
  let ?v = "zeroConfiguration\<lparr>PoolSize := 99\<rparr>"
  have k: "checkConfiguration zeroConfiguration = Ret ?cf"
    by (simp add: checkConfiguration_def zeroConfiguration_def)
  have w: "newConnectionPool fake ?cf (world ?S) = (Ret 0, world ?S)"
    by (simp add: fake_def)
  have n: "NewClient fake zeroConfiguration ?S =
     (Ret ?c, ?S\<lparr>heap := heap ?S @ [?cf], world := world ?S,
                   calls := calls ?S @ [NewConnectionPool ?cf]\<rparr>)"
    unfolding NewClient_Ret [OF k w] by (simp add: start_def)
  let ?s1 = "?S\<lparr>heap := heap ?S @ [?cf], world := world ?S,
                   calls := calls ?S @ [NewConnectionPool ?cf]\<rparr>"
  from NewClient_private_copy [of fake zeroConfiguration ?S ?c ?s1, rule_format, OF n] obtain cf where
    x: "checkConfiguration zeroConfiguration = Ret cf \<and> deref (configuration ?c) ?s1 = Some cf \<and>
        configuration ?c = length (heap ?S) \<and> deref (configuration ?c) ?S = None \<and>
        (\<forall>t a v. deref (configuration ?c) t = Some cf \<and> a \<noteq> configuration ?c \<longrightarrow>
           deref (configuration ?c) (t\<lparr>heap := (heap t)[a := v]\<rparr>) = Some cf \<and>
           Close fake ?c (t\<lparr>heap := (heap t)[a := v]\<rparr>) =
             map_option (\<lambda>(out, t'). (out, t'\<lparr>heap := (heap t)[a := v]\<rparr>)) (Close fake ?c t))"
    ..
  note r = x [THEN conjunct1]
  note d = x [THEN conjunct2, THEN conjunct1]
  note f = x [THEN conjunct2, THEN conjunct2, THEN conjunct2, THEN conjunct2, rule_format,
              of ?s1 0 ?v, THEN conjunct1]
  from r k have cf: "cf = ?cf" by simp
  have "deref (configuration ?c) (?s1\<lparr>heap := (heap ?s1)[0 := ?v]\<rparr>) = Some cf"
    by (rule f) (rule conjI, rule d, simp)
  then show ?thesis unfolding n cf by simp
qed

end
